theory Spec2Isabelle
  imports Main
begin

section \<open>The cluster service: data model\<close>

text \<open>
  The development covers \<^verbatim>\<open>cservice.py\<close> (class \<^verbatim>\<open>ClusterService\<close>) and
  \<^verbatim>\<open>whisper_service.py\<close> (class \<^verbatim>\<open>Whisper\<close>). Everything the Python reads from its
  surroundings is a field of the record \<open>world\<close>: the clock, the files, the environment and
  the behaviour of the programs it calls. Functions take the world and return the new one.
\<close>

datatype py_error =
    AttributeError | FileNotFoundError | IsADirectoryError | YAMLError
  | FileExistsError | ValueError | TypeError | KeyError

text \<open>
  Control flow of a call: it returns a value, it calls \<^verbatim>\<open>exit(n)\<close> (SystemExit, which
  no handler of this program catches), or it raises an exception.
\<close>

datatype 'a result = Ok 'a | Exit int | Raise py_error

datatype level = DEBUG | INFO | WARNING | ERROR

text \<open>
  A job descriptor as \<^verbatim>\<open>yaml.safe_load\<close> gives it: a dict with the keys \<^verbatim>\<open>manifest\<close> (a
  list of item names) and \<^verbatim>\<open>model\<close>. The keys \<^verbatim>\<open>language\<close> and \<^verbatim>\<open>prompt\<close> are read by the
  transcription only and are left out. \<^verbatim>\<open>get_todo_list\<close> adds \<^verbatim>\<open>jobdir\<close> and \<^verbatim>\<open>settled\<close>.
\<close>

record jobdata =
  manifest :: "string list"
  model :: string
  jobdir :: string
  settled :: bool

text \<open>
  What \<^verbatim>\<open>open(jobfile)\<close> followed by \<^verbatim>\<open>yaml.safe_load\<close> does on a descriptor: it raises
  (with the exception's text), or it gives the manifest and the model.
\<close>

datatype descriptor = Unreadable string | Parsed "string list" string

text \<open>The job information: \<^verbatim>\<open>vars(args)\<close> with the key \<^verbatim>\<open>jobid\<close> added. An entry
  directly inside the working directory is a directory or a file with its text.\<close>

record info =
  debug :: bool
  continuation :: bool
  workdir_arg :: string
  jobid :: "string option"

datatype node = Dir | File string

text \<open>What \<^verbatim>\<open>yaml.safe_load\<close> gives on the text of \<^verbatim>\<open>jobinfo.yaml\<close> when the text parses: the
  job information, a mapping without the key \<^verbatim>\<open>debug\<close>, or a value that is no mapping
  (\<^verbatim>\<open>None\<close> for an empty file, a number, a string, a list).\<close>

datatype loaded = NotMapping | NoDebug | Mapping info

record completed =
  returncode :: int
  stdout :: string
  stderr :: string

text \<open>
  The world. \<open>glob w name\<close> lists the subdirectories \<open>d\<close> of the working directory for which
  \<^verbatim>\<open>workdir.glob("*/name")\<close> yields \<open>d/name\<close>, in the order of the iteration;
  \<open>load\<close>, \<open>mtime\<close> and \<open>present\<close> are keyed by (subdirectory, file name). \<open>files\<close> holds the
  entries directly in the working directory. \<open>shell w cmd input\<close> is what
  \<^verbatim>\<open>subprocess.run(cmd, input=input, shell=True)\<close> returns; \<open>ran\<close> records every such call.
  \<open>transcribes w (d, f)\<close> tells whether the transcription of item \<open>f\<close> of job directory
  \<open>d\<close> runs to the end of its \<^verbatim>\<open>try\<close> block; \<open>handed\<close> records every item handed to it.
  \<open>atexit\<close> lists the paths whose removal is registered with \<^verbatim>\<open>atexit.register\<close>.
  \<open>script\<close> is the absolute path of the running script (\<^verbatim>\<open>__main__.__file__\<close>), \<open>cuda\<close>
  is \<^verbatim>\<open>torch.cuda.is_available()\<close>, and \<open>yaml_dump\<close> and \<open>yaml_load\<close> are
  \<^verbatim>\<open>yaml.safe_dump\<close> and \<^verbatim>\<open>yaml.safe_load\<close> on the job information (\<open>None\<close>: the
  text does not parse). \<open>is_dir\<close> tells whether the path given as \<^verbatim>\<open>workdir\<close> is a directory,
  \<open>now\<close> is \<^verbatim>\<open>time.time()\<close> and \<open>env\<close> is \<^verbatim>\<open>os.environ\<close>. \<open>log\<close> records every call of
  \<^verbatim>\<open>logging.debug\<close>, \<^verbatim>\<open>info\<close>, \<^verbatim>\<open>warning\<close>, \<^verbatim>\<open>error\<close> and \<^verbatim>\<open>exception\<close> with its level, before
  the filter of the configured level. \<open>cwd_path w p\<close> is the path \<open>p\<close> joined to the
  current directory of the process (\<^verbatim>\<open>str(Path.cwd() / p)\<close>).
  \<open>handler\<close> holds the job information that the installed handler of SIGUSR1 was defined
  with (\<open>None\<close>: no handler is installed). The program takes a signal at the places
  where it spends its time (section on the handler); \<open>ticks\<close> counts these places as the
  run passes them, and \<open>usr1 w n\<close> tells whether the signal arrives at place number \<open>n\<close>.
  Timestamps are integers (clock ticks); a character of a text is a code point below
  256.
\<close>

record world =
  now :: int
  is_dir :: bool
  files :: "string \<rightharpoonup> node"
  glob :: "string \<Rightarrow> string list"
  load :: "string \<times> string \<Rightarrow> descriptor"
  mtime :: "string \<times> string \<Rightarrow> int"
  present :: "(string \<times> string) set"
  env :: "string \<rightharpoonup> string"
  shell :: "string \<Rightarrow> string \<Rightarrow> completed"
  ran :: "(string \<times> string) list"
  transcribes :: "string \<times> string \<Rightarrow> bool"
  handed :: "(string \<times> string) list"
  atexit :: "string list"
  log :: "(level \<times> string) list"
  script :: string
  cuda :: bool
  yaml_dump :: "info \<Rightarrow> string"
  yaml_load :: "string \<Rightarrow> loaded option"
  cwd_path :: "string \<Rightarrow> string"
  handler :: "loaded option"
  usr1 :: "nat \<Rightarrow> bool"
  ticks :: nat

definition logging :: "level \<Rightarrow> string \<Rightarrow> world \<Rightarrow> world" where
  "logging l msg w = w\<lparr>log := log w @ [(l, msg)]\<rparr>"

text \<open>
  The service object. \<^verbatim>\<open>__init__\<close> sets \<^verbatim>\<open>JOB_SETTLE_TIME\<close> and \<^verbatim>\<open>workdir\<close> and nothing
  else: the attribute \<^verbatim>\<open>job_warnings\<close> that \<^verbatim>\<open>get_todo_list\<close> reads is \<open>None\<close> while no
  code has assigned it. \<open>workdir\<close> is the path given on the command line
  (\<^verbatim>\<open>str(args.workdir)\<close>).
\<close>

record service =
  JOB_SETTLE_TIME :: int
  workdir :: string
  job_warnings :: "(string \<times> string) set option"

definition init :: "string \<Rightarrow> int \<Rightarrow> service" where
  "init wd settle_time = \<lparr>JOB_SETTLE_TIME = settle_time, workdir = wd, job_warnings = None\<rparr>"

text \<open>
  \<^verbatim>\<open>str(Path(p).absolute())\<close>: \<^verbatim>\<open>absolute\<close> returns the path itself when it is absolute (on
  POSIX: it begins with \<^verbatim>\<open>/\<close>) and joins it to the current directory otherwise.
\<close>

definition is_absolute :: "string \<Rightarrow> bool" where
  "is_absolute p = (case p of [] \<Rightarrow> False | c # cs \<Rightarrow> c = CHR ''/'')"

definition absolute :: "world \<Rightarrow> string \<Rightarrow> string" where
  "absolute w p = (if is_absolute p then p else cwd_path w p)"

definition unlink :: "string \<Rightarrow> world \<Rightarrow> world" where
  "unlink p w = w\<lparr>files := (files w)(p := None)\<rparr>"

subsection \<open>Strings\<close>

text \<open>
  \<^verbatim>\<open>str.strip()\<close> removes the white space at both ends: the characters for which
  \<^verbatim>\<open>str.isspace()\<close> holds, which below 256 are 9 to 13, 28 to 32, 133 (U+0085) and 160
  (U+00A0). \<^verbatim>\<open>sep.join(xs)\<close>; \<^verbatim>\<open>str(n)\<close>.
\<close>

definition is_space :: "char \<Rightarrow> bool" where
  "is_space c = ((9 \<le> (of_char c :: nat) \<and> (of_char c :: nat) \<le> 13)
     \<or> (28 \<le> (of_char c :: nat) \<and> (of_char c :: nat) \<le> 32)
     \<or> (of_char c :: nat) = 133 \<or> (of_char c :: nat) = 160)"

definition strip :: "string \<Rightarrow> string" where
  "strip s = rev (dropWhile is_space (rev (dropWhile is_space s)))"

fun join :: "string \<Rightarrow> string list \<Rightarrow> string" where
  "join sep [] = []"
| "join sep [x] = x"
| "join sep (x # y # ys) = x @ sep @ join sep (y # ys)"

fun digits :: "nat \<Rightarrow> string" where
  "digits n = (if n < 10 then [''0123456789'' ! n] else digits (n div 10) @ [''0123456789'' ! (n mod 10)])"

declare digits.simps [simp del]

definition str_int :: "int \<Rightarrow> string" where
  "str_int i = (if i < 0 then CHR ''-'' # digits (nat (- i)) else digits (nat i))"

definition str_opt :: "string option \<Rightarrow> string" where
  "str_opt s = (case s of None \<Rightarrow> ''None'' | Some t \<Rightarrow> t)"

section \<open>Manifest filtering (\<^verbatim>\<open>Whisper.filter_jobdata\<close>)\<close>

text \<open>
  \<^verbatim>\<open>
  for file in list(jobdata['manifest']):
      if file and (jobdata['jobdir'] / (file + ".whisper.json")).exists():
          jobdata['manifest'].remove(file)
  \<close>
  The loop runs over a copy of the manifest; \<^verbatim>\<open>remove\<close> deletes the first occurrence.
\<close>

fun filter_loop :: "world \<Rightarrow> string \<Rightarrow> string list \<Rightarrow> string list \<Rightarrow> string list" where
  "filter_loop w d [] m = m"
| "filter_loop w d (file # rest) m =
     filter_loop w d rest
       (if file \<noteq> [] \<and> (d, file @ ''.whisper.json'') \<in> present w then remove1 file m else m)"

definition filter_jobdata :: "world \<Rightarrow> jobdata \<Rightarrow> jobdata" where
  "filter_jobdata w jd = jd\<lparr>manifest := filter_loop w (jobdir jd) (manifest jd) (manifest jd)\<rparr>"

section \<open>Template rendering (\<^verbatim>\<open>string.Template.safe_substitute\<close>)\<close>

text \<open>
  \<^verbatim>\<open>self_submission\<close> renders the text of \<^verbatim>\<open>.submit\<close> with \<^verbatim>\<open>Template.safe_substitute\<close>
  of Python's standard library (\<^verbatim>\<open>Lib/string.py\<close>). Its pattern, with the flags
  IGNORECASE and VERBOSE and \<^verbatim>\<open>id = (?a:[_a-z][_a-z0-9]*)\<close>, is
  \<^verbatim>\<open>
  \$(?:
    (?P<escaped>\$)  |   # Escape sequence of two delimiters
    (?P<named>id)    |   # delimiter and a Python identifier
    {(?P<braced>id)} |   # delimiter and a braced identifier
    (?P<invalid>)        # Other ill-formed delimiter exprs
  )
  \<close>
  A match object is the matched text and its four groups.
\<close>

record match =
  whole :: string
  escaped :: "string option"
  named :: "string option"
  braced :: "string option"
  invalid :: "string option"

definition is_id_start :: "char \<Rightarrow> bool" where
  "is_id_start c =
     (c = CHR ''_'' \<or> (97 \<le> (of_char c :: nat) \<and> (of_char c :: nat) \<le> 122)
        \<or> (65 \<le> (of_char c :: nat) \<and> (of_char c :: nat) \<le> 90))"

definition is_id_char :: "char \<Rightarrow> bool" where
  "is_id_char c = (is_id_start c \<or> (48 \<le> (of_char c :: nat) \<and> (of_char c :: nat) \<le> 57))"

definition no_match :: match where
  "no_match = \<lparr>whole = [], escaped = None, named = None, braced = None, invalid = None\<rparr>"

text \<open>
  \<open>match_delim cs\<close>: the match of the pattern at a delimiter \<open>$\<close> that is followed by \<open>cs\<close>,
  and the text after the match. The alternatives are tried in the pattern's order; the
  identifier is the longest one (the quantifier is greedy, and a shorter identifier
  cannot be followed by \<open>}\<close>); the last alternative matches the empty text.
\<close>

definition match_delim :: "string \<Rightarrow> match \<times> string" where
  "match_delim cs =
     (case cs of
        [] \<Rightarrow> (no_match\<lparr>whole := ''$'', invalid := Some []\<rparr>, cs)
      | c # rest \<Rightarrow>
          if c = CHR ''$'' then (no_match\<lparr>whole := ''$$'', escaped := Some ''$''\<rparr>, rest)
          else if is_id_start c then
            (no_match\<lparr>whole := CHR ''$'' # takeWhile is_id_char cs,
                named := Some (takeWhile is_id_char cs)\<rparr>,
             dropWhile is_id_char cs)
          else if c = CHR ''{'' then
            (case rest of
               [] \<Rightarrow> (no_match\<lparr>whole := ''$'', invalid := Some []\<rparr>, cs)
             | i # _ \<Rightarrow>
                 if is_id_start i then
                   (case dropWhile is_id_char rest of
                      [] \<Rightarrow> (no_match\<lparr>whole := ''$'', invalid := Some []\<rparr>, cs)
                    | e # after \<Rightarrow>
                        if e = CHR ''}'' then
                          (no_match\<lparr>whole := ''${'' @ takeWhile is_id_char rest @ ''}'',
                              braced := Some (takeWhile is_id_char rest)\<rparr>,
                           after)
                        else (no_match\<lparr>whole := ''$'', invalid := Some []\<rparr>, cs))
                 else (no_match\<lparr>whole := ''$'', invalid := Some []\<rparr>, cs))
          else (no_match\<lparr>whole := ''$'', invalid := Some []\<rparr>, cs))"

text \<open>
  \<^verbatim>\<open>
  def convert(mo):
      named = mo.group('named') or mo.group('braced')
      if named is not None:
          try:
              return str(mapping[named])
          except KeyError:
              return mo.group()
      if mo.group('escaped') is not None:
          return self.delimiter
      if mo.group('invalid') is not None:
          return mo.group()
      raise ValueError('Unrecognized named group in pattern', self.pattern)
  return self.pattern.sub(convert, self.template)
  \<close>
\<close>

definition py_or :: "string option \<Rightarrow> string option \<Rightarrow> string option" where
  "py_or a b = (case a of None \<Rightarrow> b | Some s \<Rightarrow> if s = [] then b else Some s)"

definition convert :: "(string \<rightharpoonup> string) \<Rightarrow> match \<Rightarrow> py_error + string" where
  "convert mapping mo =
     (case py_or (named mo) (braced mo) of
        Some n \<Rightarrow> (case mapping n of Some v \<Rightarrow> Inr v | None \<Rightarrow> Inr (whole mo))
      | None \<Rightarrow>
          if escaped mo \<noteq> None then Inr ''$''
          else if invalid mo \<noteq> None then Inr (whole mo)
          else Inl ValueError)"

text \<open>\<^verbatim>\<open>pattern.sub(convert, template)\<close>: the text between the matches is copied, each match
  is replaced by what \<open>convert\<close> returns, and an exception of \<open>convert\<close> ends the call.\<close>

function pattern_sub :: "(match \<Rightarrow> py_error + string) \<Rightarrow> string \<Rightarrow> py_error + string" where
  "pattern_sub conv [] = Inr []"
| "pattern_sub conv (c # cs) =
     (if c = CHR ''$'' then
        (case conv (fst (match_delim cs)) of
           Inl e \<Rightarrow> Inl e
         | Inr s \<Rightarrow>
             (case pattern_sub conv (snd (match_delim cs)) of
                Inl e \<Rightarrow> Inl e
              | Inr t \<Rightarrow> Inr (s @ t)))
      else
        (case pattern_sub conv cs of Inl e \<Rightarrow> Inl e | Inr t \<Rightarrow> Inr (c # t)))"
  by pat_completeness auto
termination
proof (relation "measure (\<lambda>(conv, s). length s)")
  show "wf (measure (\<lambda>(conv, s). length s))" by simp
next
  fix conv :: "match \<Rightarrow> py_error + string" and c :: char and cs :: string and x2 :: string
  have "length (dropWhile is_id_char (tl cs)) \<le> length (tl cs)"
    by (rule length_dropWhile_le)
  then have a: "length (dropWhile is_id_char (tl cs)) \<le> length cs" by simp
  have b: "length (dropWhile is_id_char cs) \<le> length cs"
    by (rule length_dropWhile_le)
  have "length (snd (match_delim cs)) \<le> length cs"
    using a b
    by (cases cs) (auto simp: match_delim_def split: list.splits if_splits)
  then show "((conv, snd (match_delim cs)), conv, c # cs) \<in> measure (\<lambda>(conv, s). length s)"
    by simp
next
  fix conv :: "match \<Rightarrow> py_error + string" and c :: char and cs :: string
  show "((conv, cs), conv, c # cs) \<in> measure (\<lambda>(conv, s). length s)" by simp
qed

definition safe_substitute :: "(string \<rightharpoonup> string) \<Rightarrow> string \<Rightarrow> py_error + string" where
  "safe_substitute mapping template = pattern_sub (convert mapping) template"

section \<open>Submission (\<^verbatim>\<open>ClusterService.self_submission\<close>)\<close>

text \<open>
  \<^verbatim>\<open>
  submit_command = (self.workdir / ".submit").read_text().strip()
  template_vars = {'workdir': str(self.workdir.absolute())}
  template_vars.update(os.environ)
  template = Template(submit_command)
  submit_command = template.safe_substitute(template_vars)
  \<close>
  \<^verbatim>\<open>update\<close> lets a variable of the environment replace the entry \<^verbatim>\<open>workdir\<close>.
\<close>

definition template_vars :: "service \<Rightarrow> world \<Rightarrow> (string \<rightharpoonup> string)" where
  "template_vars self w = [''workdir'' \<mapsto> absolute w (workdir self)] ++ env w"

definition render :: "service \<Rightarrow> world \<Rightarrow> string \<Rightarrow> py_error + string" where
  "render self w text = safe_substitute (template_vars self w) (strip text)"

text \<open>
  \<^verbatim>\<open>
  command_array = [str(Path(__main__.__file__).absolute()),
                   str(self.workdir.absolute()),
                   '--continuation']
  if info['debug']:
      command_array.append("--debug")
  slurm_script = '\n'.join(['#!/bin/bash', ' '.join(command_array), 'exit $?'])
  \<close>
\<close>

definition slurm_script :: "service \<Rightarrow> info \<Rightarrow> world \<Rightarrow> string" where
  "slurm_script self jinfo w =
     join [CHR 0x0A]
       [''#!/bin/bash'',
        join '' '' ([script w, absolute w (workdir self), ''--continuation'']
                     @ (if debug jinfo then [''--debug''] else [])),
        ''exit $?'']"

text \<open>
  \<^verbatim>\<open>
  p = subprocess.run(submit_command, input=slurm_script, stdout=subprocess.PIPE,
                     stderr=subprocess.PIPE, encoding="utf-8", shell=True)
  if p.returncode != 0:
      logging.error(f"Couldn't submit ourselves, rc {p.returncode}: {p.stderr}")
      exit(1)
  info['jobid'] = p.stdout.strip()
  with open(self.workdir / "jobinfo.yaml", "w") as f:
      yaml.safe_dump(info, f)
  \<close>
  The submission command is taken not to touch the entries of the working directory.
\<close>

definition self_submission :: "service \<Rightarrow> info \<Rightarrow> world \<Rightarrow> info result \<times> world" where
  "self_submission self jinfo w =
     (case files w ''.submit'' of
        None \<Rightarrow> (Raise FileNotFoundError, w)
      | Some Dir \<Rightarrow> (Raise IsADirectoryError, w)
      | Some (File text) \<Rightarrow>
          (case render self w text of
             Inl e \<Rightarrow> (Raise e, w)
           | Inr submit_command \<Rightarrow>
               (let w1 = logging DEBUG (''Submission command:'' @ [CHR 0x0A] @ submit_command) w;
                    w2 = logging DEBUG (''Submitting job with slurm script:'' @ [CHR 0x0A]
                           @ slurm_script self jinfo w) w1;
                    p = shell w2 submit_command (slurm_script self jinfo w);
                    w3 = w2\<lparr>ran := ran w2 @ [(submit_command, slurm_script self jinfo w)]\<rparr>
                in if returncode p \<noteq> 0 then
                     (Exit 1,
                      logging ERROR (''Couldn't submit ourselves, rc '' @ str_int (returncode p)
                        @ '': '' @ stderr p) w3)
                   else
                     (case files w3 ''jobinfo.yaml'' of
                        Some Dir \<Rightarrow> (Raise IsADirectoryError, w3)
                      | _ \<Rightarrow>
                          (Ok (jinfo\<lparr>jobid := Some (strip (stdout p))\<rparr>),
                           w3\<lparr>files := (files w3)(''jobinfo.yaml'' \<mapsto>
                                 File (yaml_dump w3 (jinfo\<lparr>jobid := Some (strip (stdout p))\<rparr>)))\<rparr>)))))"

section \<open>Start of the process (\<^verbatim>\<open>ClusterService.main\<close>)\<close>

text \<open>
  The launch that is not a continuation:
  \<^verbatim>\<open>
  try:
      with open(self.workdir / "submit.lock", "x") as lockfile:
          atexit.register(lambda: (self.workdir / "submit.lock").unlink(missing_ok=True))
          if not (self.workdir / "jobinfo.yaml").exists():
              info = vars(args)
              info['jobid'] = None
              self.self_submission(info)
              logging.info(f"Job initially submitted with jobid {info['jobid']}")
          else:
              logging.info("Jobinfo file already exists, service is already in the system")
      (self.workdir / "submit.lock").unlink(missing_ok=True)
  except FileExistsError:
      logging.info("Submission conflict")
  exit(0)
  \<close>
  \<open>locked_body\<close> is the body of the \<^verbatim>\<open>with\<close> statement.
\<close>

definition locked_body :: "service \<Rightarrow> info \<Rightarrow> world \<Rightarrow> unit result \<times> world" where
  "locked_body self args w =
     (if ''jobinfo.yaml'' \<notin> dom (files w) then
        (case self_submission self (args\<lparr>jobid := None\<rparr>) w of
           (Ok jinfo, w') \<Rightarrow>
             (Ok (), logging INFO (''Job initially submitted with jobid '' @ str_opt (jobid jinfo)) w')
         | (Exit n, w') \<Rightarrow> (Exit n, w')
         | (Raise e, w') \<Rightarrow> (Raise e, w'))
      else
        (Ok (), logging INFO ''Jobinfo file already exists, service is already in the system'' w))"

definition fresh_launch :: "service \<Rightarrow> info \<Rightarrow> world \<Rightarrow> unit result \<times> world" where
  "fresh_launch self args w =
     (if ''submit.lock'' \<in> dom (files w) then
        (Exit 0, logging INFO ''Submission conflict'' w)
      else
        (case locked_body self args
                (w\<lparr>files := (files w)(''submit.lock'' \<mapsto> File []),
                   atexit := atexit w @ [''submit.lock'']\<rparr>) of
           (Ok u, w') \<Rightarrow> (Exit 0, unlink ''submit.lock'' w')
         | (Raise e, w') \<Rightarrow>
             if e = FileExistsError then (Exit 0, logging INFO ''Submission conflict'' w')
             else (Raise e, w')
         | (Exit n, w') \<Rightarrow> (Exit n, w')))"

definition sample :: string where
  "sample =
     ''sbatch --signal B:USR1@30 -D$workdir '' @ [CHR 0x5C, CHR 0x0A]
     @ ''   -e $workdir/stderr.out -o $workdir/stdout.out '' @ [CHR 0x5C, CHR 0x0A]
     @ ''   --open-mode=append --parsable '' @ [CHR 0x5C, CHR 0x0A]
     @ ''   --mail-type=ALL '' @ [CHR 0x5C, CHR 0x0A]
     @ ''   -p general'' @ [CHR 0x0A]"

text \<open>
  The checks at the start of \<^verbatim>\<open>main\<close>:
  \<^verbatim>\<open>
  if not self.workdir.is_dir():
      logging.error(f"The working directory {self.workdir} isn't a directory")
      exit(1)
  if not (self.workdir / ".submit").exists():
      logging.error(f"The working direcory doesn't contain a .submit file")
      if not (self.workdir / ".submit.sample").exists():
          logging.info("Creating a sample .submit file")
          with open(self.workdir / ".submit.sample", "w") as f:
              f.write(...)
      exit(1)
  \<close>
  \<open>None\<close>: the checks pass.
\<close>

definition sanity :: "service \<Rightarrow> world \<Rightarrow> (unit result \<times> world) option" where
  "sanity self w =
     (if \<not> is_dir w then
        Some (Exit 1,
              logging ERROR (''The working directory '' @ workdir self @ '' isn't a directory'') w)
      else if ''.submit'' \<notin> dom (files w) then
        Some (Exit 1,
              (if ''.submit.sample'' \<notin> dom (files w) then
                 (logging INFO ''Creating a sample .submit file''
                    (logging ERROR ''The working direcory doesn't contain a .submit file'' w))
                 \<lparr>files := (files w)(''.submit.sample'' \<mapsto> File sample)\<rparr>
               else logging ERROR ''The working direcory doesn't contain a .submit file'' w))
      else None)"

section \<open>The handler of SIGUSR1\<close>

text \<open>
  \<^verbatim>\<open>
  def usr1handler(sig, frame):
      self.self_submission(info)
      exit(0)
  signal.signal(signal.SIGUSR1, usr1handler)
  \<close>
  \<open>info\<close> is what \<^verbatim>\<open>yaml.safe_load\<close> gave on \<^verbatim>\<open>jobinfo.yaml\<close>. When it is no mapping,
  or a mapping without the key \<^verbatim>\<open>debug\<close>, \<^verbatim>\<open>self_submission\<close> reads and renders \<^verbatim>\<open>.submit\<close>
  and then raises at \<^verbatim>\<open>info['debug']\<close>, before the command is run: TypeError or KeyError
  (\<open>no_debug\<close>, with the exception of the subscription).
\<close>

definition no_debug :: "service \<Rightarrow> py_error \<Rightarrow> world \<Rightarrow> unit result \<times> world" where
  "no_debug self e w =
     (case files w ''.submit'' of
        None \<Rightarrow> (Raise FileNotFoundError, w)
      | Some Dir \<Rightarrow> (Raise IsADirectoryError, w)
      | Some (File text) \<Rightarrow>
          (case render self w text of
             Inl e' \<Rightarrow> (Raise e', w)
           | Inr submit_command \<Rightarrow> (Raise e, w)))"

definition usr1handler :: "service \<Rightarrow> loaded \<Rightarrow> world \<Rightarrow> unit result \<times> world" where
  "usr1handler self inf0 w =
     (case inf0 of
        Mapping jinfo \<Rightarrow>
          (case self_submission self jinfo w of
             (Ok jinfo', w') \<Rightarrow> (Exit 0, w')
           | (Exit n, w') \<Rightarrow> (Exit n, w')
           | (Raise e, w') \<Rightarrow> (Raise e, w'))
      | NotMapping \<Rightarrow> no_debug self TypeError w
      | NoDebug \<Rightarrow> no_debug self KeyError w)"

text \<open>
  The signal is asynchronous: the interpreter runs the handler between two instructions
  of the main program, and what the handler raises continues from there. The
  development lets the signal arrive at the places where a continuation spends its
  time: at the head of each round of the work loop, during the sleep of
  \<^verbatim>\<open>get_todo_list\<close>, inside the \<^verbatim>\<open>try\<close> block of each item, and before the last two lines
  of \<^verbatim>\<open>main\<close>. \<open>checkpoint\<close> is such a place: with a handler installed it counts the place
  and, if the signal arrives there, runs the handler. While no handler is installed,
  the run is one without a signal.
\<close>

definition checkpoint :: "service \<Rightarrow> world \<Rightarrow> unit result \<times> world" where
  "checkpoint self w =
     (case handler w of
        None \<Rightarrow> (Ok (), w)
      | Some inf0 \<Rightarrow>
          if usr1 w (ticks w) then usr1handler self inf0 (w\<lparr>ticks := Suc (ticks w)\<rparr>)
          else (Ok (), w\<lparr>ticks := Suc (ticks w)\<rparr>))"

section \<open>Discovery (\<^verbatim>\<open>ClusterService.get_todo_list\<close>)\<close>

text \<open>
  The \<^verbatim>\<open>for\<close> loop over \<^verbatim>\<open>self.workdir.glob(f"*/{jobfile}")\<close>:
  \<^verbatim>\<open>
  try:
      with open(jobfile) as f:
          jobdata = yaml.safe_load(f)
  except Exception as e:
      if jobfile not in self.job_warnings:
          self.job_warnings.add(jobfile)
          logging.warning(f"Cannot read {jobfile}: {e}")
      continue
  jobdata.update({'jobdir': jobfile.parent,
                  'settled': (time.time() - jobfile.stat().st_mtime) > self.JOB_SETTLE_TIME})
  self.filter_jobdata(jobdata)
  if not jobdata['manifest']:
      logging.debug(f"The job file {jobfile.resolve()} is finished, skipping")
      continue
  results.append(jobdata)
  \<close>
  Reading an attribute that was never assigned raises AttributeError.
\<close>

definition jobpath :: "service \<Rightarrow> string \<Rightarrow> string \<Rightarrow> string" where
  "jobpath self d name = workdir self @ ''/'' @ d @ ''/'' @ name"

fun discover ::
  "string \<Rightarrow> string list \<Rightarrow> jobdata list \<Rightarrow> service \<Rightarrow> world
     \<Rightarrow> jobdata list result \<times> service \<times> world" where
  "discover name [] results self w = (Ok results, self, w)"
| "discover name (d # ds) results self w =
     (case load w (d, name) of
        Unreadable e \<Rightarrow>
          (case job_warnings self of
             None \<Rightarrow> (Raise AttributeError, self, w)
           | Some seen \<Rightarrow>
               if (d, name) \<notin> seen then
                 discover name ds results (self\<lparr>job_warnings := Some (insert (d, name) seen)\<rparr>)
                   (logging WARNING (''Cannot read '' @ jobpath self d name @ '': '' @ e) w)
               else discover name ds results self w)
      | Parsed m mdl \<Rightarrow>
          (if manifest (filter_jobdata w
                 \<lparr>manifest = m, model = mdl, jobdir = d,
                  settled = (now w - mtime w (d, name) > JOB_SETTLE_TIME self)\<rparr>) = []
           then discover name ds results self
                  (logging DEBUG (''The job file '' @ jobpath self d name
                     @ '' is finished, skipping'') w)
           else discover name ds
                  (results @ [filter_jobdata w
                     \<lparr>manifest = m, model = mdl, jobdir = d,
                      settled = (now w - mtime w (d, name) > JOB_SETTLE_TIME self)\<rparr>])
                  self w))"

text \<open>
  The loop after it:
  \<^verbatim>\<open>
  while True:
      todo = [x for x in results if x['settled']]
      if results and not todo:
          logging.info("Waiting for jobs to settle.")
          time.sleep(self.JOB_SETTLE_TIME)
          continue
      break
  return results
  \<close>
  \<^verbatim>\<open>time.sleep\<close> raises ValueError on a negative length and otherwise lets the clock
  advance by the length; a signal may arrive during the sleep. A loop that never ends
  is the value \<open>None\<close>.
\<close>

partial_function (option) settle_loop ::
  "service \<Rightarrow> jobdata list \<Rightarrow> world \<Rightarrow> (jobdata list result \<times> world) option" where
  "settle_loop self results w =
     (if results \<noteq> [] \<and> filter settled results = [] then
        (if JOB_SETTLE_TIME self < 0 then
           Some (Raise ValueError, logging INFO ''Waiting for jobs to settle.'' w)
         else
           (case checkpoint self (logging INFO ''Waiting for jobs to settle.'' w) of
              (Ok u, w') \<Rightarrow>
                settle_loop self results (w'\<lparr>now := now w' + JOB_SETTLE_TIME self\<rparr>)
            | (Exit n, w') \<Rightarrow> Some (Exit n, w')
            | (Raise e, w') \<Rightarrow> Some (Raise e, w')))
      else Some (Ok results, w))"

definition get_todo_list ::
  "string \<Rightarrow> service \<Rightarrow> world \<Rightarrow> (jobdata list result \<times> service \<times> world) option" where
  "get_todo_list jobfile self w =
     (case discover jobfile (glob w jobfile) [] self w of
        (Ok results, self', w') \<Rightarrow>
          (case settle_loop self' results w' of
             None \<Rightarrow> None
           | Some (r, w'') \<Rightarrow> Some (r, self', w''))
      | (Exit n, self', w') \<Rightarrow> Some (Exit n, self', w')
      | (Raise e, self', w') \<Rightarrow> Some (Raise e, self', w'))"

section \<open>The work loop (\<^verbatim>\<open>Whisper.work\<close>)\<close>

text \<open>
  The innermost loop, over the items of one job:
  \<^verbatim>\<open>
  for f in t['manifest']:
      try:
          logging.info(f"Starting processing of {f}")
          audio = whisper.load_audio(t['jobdir'] / f)
          ...
          with open(t['jobdir'] / (f + ".whisper.json"), "w") as f:
              json.dump(res, f, indent=4)
          process_count += 1
      except Exception as e:
          logging.exception(f"Failed during transcription of {f}")
  \<close>
  The transcription itself is outside this development: \<open>transcribes w (d, f)\<close> tells
  whether the \<^verbatim>\<open>try\<close> block runs to its end (the marker is written and the count goes
  up) or raises before the marker is opened. A signal may arrive inside the \<^verbatim>\<open>try\<close>
  block: the \<^verbatim>\<open>exit\<close> of the handler (SystemExit) leaves the loop, and an exception of
  the handler is caught by \<^verbatim>\<open>except Exception\<close> like a failure of the item.
\<close>

fun items_loop ::
  "service \<Rightarrow> string \<Rightarrow> string list \<Rightarrow> nat \<times> world \<Rightarrow> nat result \<times> world" where
  "items_loop self d [] (n, w) = (Ok n, w)"
| "items_loop self d (f # fs) (n, w) =
     (case checkpoint self
             ((logging INFO (''Starting processing of '' @ f) w)
                \<lparr>handed := handed w @ [(d, f)]\<rparr>) of
        (Ok u, w') \<Rightarrow>
          if transcribes w' (d, f) then
            items_loop self d fs
              (Suc n, w'\<lparr>present := insert (d, f @ ''.whisper.json'') (present w')\<rparr>)
          else
            items_loop self d fs
              (n, logging ERROR (''Failed during transcription of '' @ f) w')
      | (Exit k, w') \<Rightarrow> (Exit k, w')
      | (Raise e, w') \<Rightarrow>
          items_loop self d fs
            (n, logging ERROR (''Failed during transcription of '' @ f) w'))"

text \<open>
  \<^verbatim>\<open>
  for t in todo:
      if t['model'] != model_name:
          continue
      logging.info(f"Processing job in {t['jobdir']}")
      for f in t['manifest']: ...
  \<close>
\<close>

fun jobs_loop ::
  "service \<Rightarrow> string \<Rightarrow> jobdata list \<Rightarrow> nat \<times> world \<Rightarrow> nat result \<times> world" where
  "jobs_loop self model_name [] (n, w) = (Ok n, w)"
| "jobs_loop self model_name (t # ts) (n, w) =
     (if model t \<noteq> model_name then jobs_loop self model_name ts (n, w)
      else
        (case items_loop self (jobdir t) (manifest t)
                (n, logging INFO (''Processing job in '' @ workdir self @ ''/'' @ jobdir t) w) of
           (Ok n', w') \<Rightarrow> jobs_loop self model_name ts (n', w')
         | (Exit k, w') \<Rightarrow> (Exit k, w')
         | (Raise e, w') \<Rightarrow> (Raise e, w')))"

text \<open>
  \<^verbatim>\<open>
  models = {x['model'] for x in todo}
  for model_name in models:
      logging.info(f"Starting processing for jobs using {model_name} model")
      model = whisper.load_model(model_name, device,)
      for t in todo: ...
  \<close>
  The set is iterated in the order of the first occurrences; loading a model is taken to
  succeed.
\<close>

fun models_loop ::
  "service \<Rightarrow> string list \<Rightarrow> jobdata list \<Rightarrow> nat \<times> world \<Rightarrow> nat result \<times> world" where
  "models_loop self [] todo (n, w) = (Ok n, w)"
| "models_loop self (model_name # rest) todo (n, w) =
     (case jobs_loop self model_name todo
             (n, logging INFO (''Starting processing for jobs using '' @ model_name
                   @ '' model'') w) of
        (Ok n', w') \<Rightarrow> models_loop self rest todo (n', w')
      | (Exit k, w') \<Rightarrow> (Exit k, w')
      | (Raise e, w') \<Rightarrow> (Raise e, w'))"

definition pass :: "service \<Rightarrow> jobdata list \<Rightarrow> world \<Rightarrow> nat result \<times> world" where
  "pass self todo w =
     models_loop self (remdups (map model todo)) todo
       (0, logging INFO (''Starting processing of '' @ str_int (int (length todo)) @ '' jobs'') w)"

text \<open>
  \<^verbatim>\<open>
  while True:
      todo = self.get_todo_list("whisper.job")
      if not todo:
          break
      logging.info(f"Starting processing of {len(todo)} jobs")
      process_count = 0
      ...
      if process_count == 0:
          logging.warning("Some processes didn't complete even though they were valid")
          break
  \<close>
\<close>

partial_function (option) work_loop ::
  "service \<Rightarrow> world \<Rightarrow> (unit result \<times> service \<times> world) option" where
  "work_loop self w =
     (case checkpoint self w of
        (Exit n, w0) \<Rightarrow> Some (Exit n, self, w0)
      | (Raise e, w0) \<Rightarrow> Some (Raise e, self, w0)
      | (Ok u, w0) \<Rightarrow>
          (case get_todo_list ''whisper.job'' self w0 of
             None \<Rightarrow> None
           | Some (r, self', w') \<Rightarrow>
               (case r of
                  Ok todo \<Rightarrow>
                    if todo = [] then Some (Ok (), self', w')
                    else
                      (case pass self' todo w' of
                         (Ok process_count, w'') \<Rightarrow>
                           if process_count = 0 then
                             Some (Ok (), self',
                                   logging WARNING
                                     ''Some processes didn't complete even though they were valid''
                                     w'')
                           else work_loop self' w''
                       | (Exit n, w'') \<Rightarrow> Some (Exit n, self', w'')
                       | (Raise e, w'') \<Rightarrow> Some (Raise e, self', w''))
                | Exit n \<Rightarrow> Some (Exit n, self', w')
                | Raise e \<Rightarrow> Some (Raise e, self', w'))))"

text \<open>
  Before the loop:
  \<^verbatim>\<open>
  device = 'cuda' if torch.cuda.is_available() else 'cpu'
  logging.info(f"Whisper will use {device} for computation")
  \<close>
\<close>

definition startup :: "world \<Rightarrow> world" where
  "startup w =
     logging INFO (''Whisper will use '' @ (if cuda w then ''cuda'' else ''cpu'')
       @ '' for computation'') w"

definition work :: "service \<Rightarrow> world \<Rightarrow> (unit result \<times> service \<times> world) option" where
  "work self w = work_loop self (startup w)"

section \<open>The whole of \<^verbatim>\<open>main\<close> and the process around it\<close>

text \<open>
  After the checks:
  \<^verbatim>\<open>
  if args.continuation and not (self.workdir / "jobinfo.yaml").exists():
      args.continuation = False
  if not args.continuation:
      ... (the launch that is not a continuation) ...
  else:
      with open(self.workdir / "jobinfo.yaml") as f:
          info = yaml.safe_load(f)
  signal.signal(signal.SIGUSR1, usr1handler)
  self.work()
  logging.info("Finished processing things.  Shutting down.")
  (self.workdir / "jobinfo.yaml").unlink(missing_ok=True)
  \<close>
  \<^verbatim>\<open>yaml.safe_load\<close> raises on a text that does not parse and returns any other value as
  it is; \<^verbatim>\<open>signal.signal\<close> installs the handler. \<open>shutdown\<close> is the last two lines.
\<close>

definition shutdown :: "world \<Rightarrow> world" where
  "shutdown w =
     unlink ''jobinfo.yaml'' (logging INFO ''Finished processing things.  Shutting down.'' w)"

definition main :: "service \<Rightarrow> info \<Rightarrow> world \<Rightarrow> (unit result \<times> service \<times> world) option" where
  "main self0 args w =
     (case sanity (self0\<lparr>workdir := workdir_arg args\<rparr>) w of
        Some (r, w') \<Rightarrow> Some (r, self0\<lparr>workdir := workdir_arg args\<rparr>, w')
      | None \<Rightarrow>
          if \<not> (continuation args \<and> ''jobinfo.yaml'' \<in> dom (files w)) then
            (case fresh_launch (self0\<lparr>workdir := workdir_arg args\<rparr>)
                    (args\<lparr>continuation := False\<rparr>) w of
               (r, w') \<Rightarrow> Some (r, self0\<lparr>workdir := workdir_arg args\<rparr>, w'))
          else
            (case files w ''jobinfo.yaml'' of
               None \<Rightarrow> Some (Raise FileNotFoundError, self0\<lparr>workdir := workdir_arg args\<rparr>, w)
             | Some Dir \<Rightarrow> Some (Raise IsADirectoryError, self0\<lparr>workdir := workdir_arg args\<rparr>, w)
             | Some (File text) \<Rightarrow>
                 (case yaml_load w text of
                    None \<Rightarrow> Some (Raise YAMLError, self0\<lparr>workdir := workdir_arg args\<rparr>, w)
                  | Some inf0 \<Rightarrow>
                      (case work (self0\<lparr>workdir := workdir_arg args\<rparr>)
                              (w\<lparr>handler := Some inf0\<rparr>) of
                         None \<Rightarrow> None
                       | Some (r, self', w') \<Rightarrow>
                           (case r of
                              Ok u \<Rightarrow>
                                (case checkpoint self' w' of
                                   (Ok u', w'') \<Rightarrow> Some (Ok (), self', shutdown w'')
                                 | (Exit n, w'') \<Rightarrow> Some (Exit n, self', w'')
                                 | (Raise e, w'') \<Rightarrow> Some (Raise e, self', w''))
                            | Exit n \<Rightarrow> Some (Exit n, self', w')
                            | Raise e \<Rightarrow> Some (Raise e, self', w'))))))"

text \<open>
  The process: \<^verbatim>\<open>main\<close> runs, then the interpreter runs the registered \<^verbatim>\<open>atexit\<close>
  functions (last registered first), and the exit status is 0 after a return, the
  argument of \<^verbatim>\<open>exit\<close>, or 1 after an exception that nothing caught.
\<close>

definition run_atexit :: "world \<Rightarrow> world" where
  "run_atexit w = fold unlink (rev (atexit w)) w"

definition exit_status :: "unit result \<Rightarrow> int" where
  "exit_status r = (case r of Ok u \<Rightarrow> 0 | Exit n \<Rightarrow> n | Raise e \<Rightarrow> 1)"

definition process :: "service \<Rightarrow> info \<Rightarrow> world \<Rightarrow> (int \<times> world) option" where
  "process self args w =
     (case main self args w of
        None \<Rightarrow> None
      | Some (r, self', w') \<Rightarrow> Some (exit_status r, run_atexit w'))"

section \<open>Vocabulary of the properties\<close>

text \<open>The same selection written as a filter: an item stays unless it is a non-empty
  name whose marker exists.\<close>

definition pending :: "world \<Rightarrow> string \<Rightarrow> string \<Rightarrow> bool" where
  "pending w d file = (\<not> (file \<noteq> [] \<and> (d, file @ ''.whisper.json'') \<in> present w))"

text \<open>A name that the expression \<^verbatim>\<open>[_a-z][_a-z0-9]*\<close> matches as a whole, and a text whose
  first character would make such a name longer.\<close>

definition is_identifier :: "string \<Rightarrow> bool" where
  "is_identifier name = (case name of [] \<Rightarrow> False | c # cs \<Rightarrow> is_id_start c \<and> list_all is_id_char cs)"

definition continues :: "string \<Rightarrow> bool" where
  "continues rest = (case rest of [] \<Rightarrow> False | c # cs \<Rightarrow> is_id_char c)"


text \<open>An example world: a working directory that holds a \<^verbatim>\<open>.submit\<close> file and no job
  directory, an empty environment, and a scheduler that accepts every submission.\<close>

definition world0 :: world where
  "world0 =
     \<lparr>now = 1000, is_dir = True, files = [''.submit'' \<mapsto> File ''sbatch -D $workdir''],
      glob = (\<lambda>name. []), load = (\<lambda>p. Unreadable ''no such file''), mtime = (\<lambda>p. 0),
      present = {}, env = Map.empty,
      shell = (\<lambda>cmd input. \<lparr>returncode = 0, stdout = ''4242'', stderr = []\<rparr>),
      ran = [], transcribes = (\<lambda>p. True), handed = [], atexit = [], log = [],
      script = ''/opt/whisper_service.py'', cuda = False,
      yaml_dump = (\<lambda>i. ''jobinfo''), yaml_load = (\<lambda>t. None),
      cwd_path = (\<lambda>p. ''/home/amp/'' @ p), handler = None, usr1 = (\<lambda>n. False), ticks = 0\<rparr>"

text \<open>The arguments of a first launch on \<^verbatim>\<open>/jobs/run1\<close>, and a world whose scheduler rejects
  every submission with status 3 and the message \<^verbatim>\<open>no partition\<close>.\<close>

definition args0 :: info where
  "args0 = \<lparr>debug = False, continuation = False, workdir_arg = ''/jobs/run1'', jobid = None\<rparr>"

definition rejecting :: world where
  "rejecting = world0\<lparr>shell := (\<lambda>cmd input. \<lparr>returncode = 3, stdout = [], stderr = ''no partition''\<rparr>)\<rparr>"



text \<open>
  Example worlds with job directories. The clock reads 1000 and the settle time is 300.
  \<open>unsettled\<close>: one job directory whose descriptor was modified at 990.
  \<open>unreadable\<close>: one job directory whose descriptor does not parse.
  \<open>mixed\<close>: a job directory \<open>old\<close> (descriptor modified at 0) and a job directory \<open>new\<close>
  (modified at 990).
\<close>

definition unsettled :: world where
  "unsettled = world0\<lparr>glob := (\<lambda>name. if name = ''whisper.job'' then [''new''] else []),
       load := (\<lambda>p. Parsed [''b.wav''] ''tiny''), mtime := (\<lambda>p. 990)\<rparr>"

definition unreadable :: world where
  "unreadable = world0\<lparr>glob := (\<lambda>name. if name = ''whisper.job'' then [''bad''] else []),
       load := (\<lambda>p. Unreadable ''mapping values are not allowed here'')\<rparr>"

definition mixed :: world where
  "mixed = world0\<lparr>glob := (\<lambda>name. if name = ''whisper.job'' then [''old'', ''new''] else []),
       load := (\<lambda>p. if p = (''old'', ''whisper.job'') then Parsed [''a.wav''] ''tiny''
                     else Parsed [''b.wav''] ''tiny''),
       mtime := (\<lambda>p. if p = (''old'', ''whisper.job'') then 0 else 990)\<rparr>"

text \<open>
  \<open>rounds n\<close>: the service and the world after \<open>n\<close> rounds of the work loop each of which
  is productive (no signal at its head, a discovery that finds pending JobUnits, a pass
  that completes at least one item); \<open>None\<close> when one of the first \<open>n\<close> rounds is not.
\<close>

fun rounds :: "nat \<Rightarrow> service \<Rightarrow> world \<Rightarrow> (service \<times> world) option" where
  "rounds 0 self w = Some (self, w)"
| "rounds (Suc n) self w =
     (case checkpoint self w of
        (Ok u, w0) \<Rightarrow>
          (case get_todo_list ''whisper.job'' self w0 of
             Some (Ok todo, self', w') \<Rightarrow>
               if todo = [] then None
               else
                 (case pass self' todo w' of
                    (Ok process_count, w'') \<Rightarrow>
                      if process_count = 0 then None else rounds n self' w''
                  | (Exit k, w'') \<Rightarrow> None
                  | (Raise e, w'') \<Rightarrow> None)
           | Some (Exit k, self', w') \<Rightarrow> None
           | Some (Raise e, self', w') \<Rightarrow> None
           | None \<Rightarrow> None)
      | (Exit k, w0) \<Rightarrow> None
      | (Raise e, w0) \<Rightarrow> None)"

text \<open>
  Continuations (\<^verbatim>\<open>jobinfo.yaml\<close> exists and parses to a mapping) with one settled job
  directory \<open>old\<close> and its item \<open>a.wav\<close>. \<open>continuing\<close>: the transcription of the item
  succeeds; \<open>continuing_round\<close> is the world after the first round of the work loop and
  \<open>continuing_after\<close> the world after \<^verbatim>\<open>main\<close>. \<open>stuck\<close>: the transcription fails;
  \<open>stuck_after\<close> is the world after \<^verbatim>\<open>main\<close>. \<open>preempted\<close>: the signal arrives at the head
  of the first round.
\<close>

definition continuing :: world where
  "continuing = world0\<lparr>glob := (\<lambda>name. if name = ''whisper.job'' then [''old''] else []),
       load := (\<lambda>p. Parsed [''a.wav''] ''tiny''),
       files := [''.submit'' \<mapsto> File ''sbatch -D $workdir'', ''jobinfo.yaml'' \<mapsto> File ''jobinfo''],
       yaml_load := (\<lambda>t. Some (Mapping (args0\<lparr>continuation := True, jobid := Some ''4242''\<rparr>)))\<rparr>"

definition stuck :: world where
  "stuck = continuing\<lparr>transcribes := (\<lambda>p. False)\<rparr>"

definition stuck_after :: world where
  "stuck_after = stuck\<lparr>handed := [(''old'', ''a.wav'')],
     log := [(INFO, ''Whisper will use cpu for computation''),
             (INFO, ''Starting processing of 1 jobs''),
             (INFO, ''Starting processing for jobs using tiny model''),
             (INFO, ''Processing job in /jobs/run1/old''),
             (INFO, ''Starting processing of a.wav''),
             (ERROR, ''Failed during transcription of a.wav''),
             (WARNING, ''Some processes didn't complete even though they were valid''),
             (INFO, ''Finished processing things.  Shutting down.'')],
     files := [''.submit'' \<mapsto> File ''sbatch -D $workdir''],
     handler := Some (Mapping (args0\<lparr>continuation := True, jobid := Some ''4242''\<rparr>)),
     ticks := 3\<rparr>"

definition continuing_after :: world where
  "continuing_after = continuing\<lparr>handed := [(''old'', ''a.wav'')],
     present := {(''old'', ''a.wav.whisper.json'')},
     log := [(INFO, ''Whisper will use cpu for computation''),
             (INFO, ''Starting processing of 1 jobs''),
             (INFO, ''Starting processing for jobs using tiny model''),
             (INFO, ''Processing job in /jobs/run1/old''),
             (INFO, ''Starting processing of a.wav''),
             (DEBUG, ''The job file /jobs/run1/old/whisper.job is finished, skipping''),
             (INFO, ''Finished processing things.  Shutting down.'')],
     files := [''.submit'' \<mapsto> File ''sbatch -D $workdir''],
     handler := Some (Mapping (args0\<lparr>continuation := True, jobid := Some ''4242''\<rparr>)),
     ticks := 4\<rparr>"

definition first_tick :: "nat \<Rightarrow> bool" where
  "first_tick n = (n = 0)"

definition preempted :: world where
  "preempted = continuing\<lparr>usr1 := first_tick\<rparr>"

definition continuing_round :: world where
  "continuing_round = continuing\<lparr>handed := [(''old'', ''a.wav'')],
     present := {(''old'', ''a.wav.whisper.json'')},
     log := [(INFO, ''Whisper will use cpu for computation''),
             (INFO, ''Starting processing of 1 jobs''),
             (INFO, ''Starting processing for jobs using tiny model''),
             (INFO, ''Processing job in /jobs/run1/old''),
             (INFO, ''Starting processing of a.wav'')],
     handler := Some (Mapping (args0\<lparr>continuation := True, jobid := Some ''4242''\<rparr>)),
     ticks := 2\<rparr>"

text \<open>
  Templates as the specification speaks of them: a sequence of parts, each a piece of
  text without \<open>$\<close>, a placeholder \<open>$name\<close> or \<open>${name}\<close>, the escape \<open>$$\<close>, or a \<open>$\<close> that
  stands for itself. \<open>source\<close> is the text of a part and \<open>template_of\<close> the template that
  the parts make up. In a well-formed sequence the names are identifiers, the text after
  a placeholder \<open>$name\<close> does not go on with a character of an identifier, and the text
  after a \<open>$\<close> that stands for itself starts neither an escape nor a placeholder.
\<close>

datatype part = Text string | Named string | Braced string | Dollar | Stray

fun source :: "part \<Rightarrow> string" where
  "source (Text s) = s"
| "source (Named n) = CHR ''$'' # n"
| "source (Braced n) = ''${'' @ n @ ''}''"
| "source Dollar = ''$$''"
| "source Stray = ''$''"

definition template_of :: "part list \<Rightarrow> string" where
  "template_of ps = concat (map source ps)"

definition braced_ahead :: "string \<Rightarrow> bool" where
  "braced_ahead cs =
     (case cs of
        [] \<Rightarrow> False
      | c # r \<Rightarrow> c = CHR ''{'' \<and> is_identifier (takeWhile is_id_char r)
                 \<and> (case dropWhile is_id_char r of [] \<Rightarrow> False | e # a \<Rightarrow> e = CHR ''}''))"

definition stray_before :: "string \<Rightarrow> bool" where
  "stray_before cs =
     (case cs of [] \<Rightarrow> True | c # r \<Rightarrow> c \<noteq> CHR ''$'' \<and> \<not> is_id_start c \<and> \<not> braced_ahead cs)"

fun well_formed :: "part list \<Rightarrow> bool" where
  "well_formed [] = True"
| "well_formed (Text s # ps) = (CHR ''$'' \<notin> set s \<and> well_formed ps)"
| "well_formed (Named n # ps) = (is_identifier n \<and> \<not> continues (template_of ps) \<and> well_formed ps)"
| "well_formed (Braced n # ps) = (is_identifier n \<and> well_formed ps)"
| "well_formed (Dollar # ps) = well_formed ps"
| "well_formed (Stray # ps) = (stray_before (template_of ps) \<and> well_formed ps)"

text \<open>
  The value of a placeholder: the variable of that name in the environment if there is
  one; else, for \<open>workdir\<close>, the absolute path of the working directory. \<open>fill\<close> is the
  text that replaces a part: a placeholder without a value stays as it is, and the
  escape becomes one \<open>$\<close>.
\<close>

definition value_of :: "service \<Rightarrow> world \<Rightarrow> (string \<rightharpoonup> string)" where
  "value_of self w name =
     (case env w name of
        Some v \<Rightarrow> Some v
      | None \<Rightarrow> if name = ''workdir'' then Some (absolute w (workdir self)) else None)"

fun fill :: "(string \<rightharpoonup> string) \<Rightarrow> part \<Rightarrow> string" where
  "fill m (Text s) = s"
| "fill m (Named n) = (case m n of Some v \<Rightarrow> v | None \<Rightarrow> CHR ''$'' # n)"
| "fill m (Braced n) = (case m n of Some v \<Rightarrow> v | None \<Rightarrow> ''${'' @ n @ ''}'')"
| "fill m Dollar = ''$''"
| "fill m Stray = ''$''"

text \<open>An environment with one variable, and a template (with white space around it) that
  has parts of every kind.\<close>

definition amp_world :: world where
  "amp_world = world0\<lparr>env := [''USER'' \<mapsto> ''amp'']\<rparr>"

definition amp_text :: string where
  "amp_text = '' sbatch -D $workdir -e ${workdir}/err -J ${USER}_$$ $nonexistent ${x'' @ [CHR 0x0A]"

definition amp_parts :: "part list" where
  "amp_parts =
     [Text ''sbatch -D '', Named ''workdir'', Text '' -e '', Braced ''workdir'', Text ''/err -J '',
      Braced ''USER'', Text ''_'', Dollar, Text '' '', Named ''nonexistent'', Text '' '', Stray,
      Text ''{x'']"

section \<open>Launches racing on one working directory\<close>

text \<open>
  Several processes run the launch that is not a continuation on the same working
  directory; each has passed the checks at the start of \<^verbatim>\<open>main\<close>. The processes share
  the entries \<^verbatim>\<open>submit.lock\<close>, \<^verbatim>\<open>jobinfo.yaml\<close> and \<^verbatim>\<open>.submit\<close> of the directory: \<open>lock\<close> tells
  whether \<^verbatim>\<open>submit.lock\<close> exists, and \<open>jobinfo\<close> and \<open>submit\<close> tell whether the other two
  are absent, a directory or a regular file. They interleave between their file
  operations, each of which is atomic: the exclusive \<^verbatim>\<open>open(..., "x")\<close>, \<^verbatim>\<open>exists()\<close>,
  \<^verbatim>\<open>read_text()\<close> with the run of the submission command, the \<^verbatim>\<open>open(..., "w")\<close> of
  \<^verbatim>\<open>jobinfo.yaml\<close>, \<^verbatim>\<open>unlink\<close>, and the \<^verbatim>\<open>unlink\<close> of the \<^verbatim>\<open>atexit\<close> function. The place of a
  process in the code:
  \<^item> \<open>Start\<close>: before \<^verbatim>\<open>open(self.workdir / "submit.lock", "x")\<close>;
  \<^item> \<open>Locked\<close>: the lock is created and its removal registered, before
    \<^verbatim>\<open>(self.workdir / "jobinfo.yaml").exists()\<close>;
  \<^item> \<open>Submitting\<close>: in \<^verbatim>\<open>self_submission\<close>, before \<^verbatim>\<open>read_text()\<close> and \<^verbatim>\<open>subprocess.run\<close>;
  \<^item> \<open>Writing\<close>: the command has exited with 0, before \<^verbatim>\<open>jobinfo.yaml\<close> is opened;
  \<^item> \<open>Unlocking\<close>: after the \<^verbatim>\<open>with\<close> statement, before the \<^verbatim>\<open>unlink\<close> that follows it;
  \<^item> \<open>Exiting rc\<close>: the process ends with status \<open>rc\<close> (by \<^verbatim>\<open>exit(rc)\<close>, or with 1 by an
    exception that nothing catches), before the \<^verbatim>\<open>atexit\<close> function runs;
  \<^item> \<open>Done rc\<close>: the process has ended with status \<open>rc\<close>.
  The outcome tells what the process has seen: it wrote \<^verbatim>\<open>jobinfo.yaml\<close>, it found
  \<^verbatim>\<open>jobinfo.yaml\<close> (already in the system), it found the lock (conflict), its submission
  command failed, or \<^verbatim>\<open>read_text()\<close> or \<^verbatim>\<open>open(..., "w")\<close> raised. \<open>accepts s n\<close> tells
  whether the run number \<open>n\<close> of the submission command exits with 0; \<open>attempts\<close>,
  \<open>accepted\<close> and \<open>written\<close> count the runs of the command, the runs that exited with 0,
  and the writes of \<^verbatim>\<open>jobinfo.yaml\<close>.
\<close>

datatype entry = Absent | Directory | Regular

datatype outcome = Submitted | AlreadyActive | Conflict | Failed | Raised

datatype pc =
    Start | Locked | Submitting | Writing
  | Unlocking outcome | Exiting int outcome | Done int outcome

record shared =
  lock :: bool
  jobinfo :: entry
  submit :: entry
  pcs :: "nat \<Rightarrow> pc"
  accepts :: "nat \<Rightarrow> bool"
  attempts :: nat
  accepted :: nat
  written :: nat

text \<open>\<^verbatim>\<open>(self.workdir / "jobinfo.yaml").exists()\<close>.\<close>

definition active :: "shared \<Rightarrow> bool" where
  "active s = (jobinfo s \<noteq> Absent)"

text \<open>
  One step of process \<open>i\<close>. In \<^verbatim>\<open>self_submission\<close>, \<^verbatim>\<open>read_text()\<close> raises unless \<^verbatim>\<open>.submit\<close>
  is a regular file, and \<^verbatim>\<open>open(..., "w")\<close> raises when \<^verbatim>\<open>jobinfo.yaml\<close> is a directory;
  the exception leaves the \<^verbatim>\<open>with\<close> statement, is not a \<^verbatim>\<open>FileExistsError\<close>, and ends
  the process with status 1, as \<^verbatim>\<open>exit(1)\<close> does after a failed command. Neither comes to
  the \<^verbatim>\<open>unlink\<close> after the \<^verbatim>\<open>with\<close> statement.
\<close>

definition step1 :: "nat \<Rightarrow> shared \<Rightarrow> shared" where
  "step1 i s =
     (case pcs s i of
        Start \<Rightarrow>
          if lock s then s\<lparr>pcs := (pcs s)(i := Done 0 Conflict)\<rparr>
          else s\<lparr>lock := True, pcs := (pcs s)(i := Locked)\<rparr>
      | Locked \<Rightarrow>
          if active s then s\<lparr>pcs := (pcs s)(i := Unlocking AlreadyActive)\<rparr>
          else s\<lparr>pcs := (pcs s)(i := Submitting)\<rparr>
      | Submitting \<Rightarrow>
          if submit s \<noteq> Regular then s\<lparr>pcs := (pcs s)(i := Exiting 1 Raised)\<rparr>
          else if accepts s (attempts s) then
            s\<lparr>attempts := Suc (attempts s), accepted := Suc (accepted s),
              pcs := (pcs s)(i := Writing)\<rparr>
          else s\<lparr>attempts := Suc (attempts s), pcs := (pcs s)(i := Exiting 1 Failed)\<rparr>
      | Writing \<Rightarrow>
          if jobinfo s = Directory then s\<lparr>pcs := (pcs s)(i := Exiting 1 Raised)\<rparr>
          else s\<lparr>jobinfo := Regular, written := Suc (written s),
                 pcs := (pcs s)(i := Unlocking Submitted)\<rparr>
      | Unlocking out \<Rightarrow> s\<lparr>lock := False, pcs := (pcs s)(i := Exiting 0 out)\<rparr>
      | Exiting rc out \<Rightarrow> s\<lparr>lock := False, pcs := (pcs s)(i := Done rc out)\<rparr>
      | Done rc out \<Rightarrow> s)"

text \<open>
  The program touches \<^verbatim>\<open>jobinfo.yaml\<close> at two more places, both in a continuation. A
  continuation that has done its work removes the file,
  \<^verbatim>\<open>(self.workdir / "jobinfo.yaml").unlink(missing_ok=True)\<close> at the end of \<^verbatim>\<open>main\<close> (on a
  directory \<^verbatim>\<open>unlink\<close> raises and removes nothing); and the handler of SIGUSR1 of a
  continuation, whose submission command has exited with 0, writes the file anew
  (\<^verbatim>\<open>open(..., "w")\<close>, which raises on a directory). An event of a schedule is a step of
  the launch \<open>i\<close>, the end of a continuation, or the write of a handler; at the launch
  every process is at \<open>Start\<close>. \<open>launches_only\<close>: no continuation acts in the schedule.
\<close>

datatype event = Step nat | Finish | Resubmit

definition finish :: "shared \<Rightarrow> shared" where
  "finish s = (if jobinfo s = Regular then s\<lparr>jobinfo := Absent\<rparr> else s)"

definition resubmit :: "shared \<Rightarrow> shared" where
  "resubmit s = (if jobinfo s = Directory then s else s\<lparr>jobinfo := Regular\<rparr>)"

fun step :: "event \<Rightarrow> shared \<Rightarrow> shared" where
  "step (Step i) s = step1 i s"
| "step Finish s = finish s"
| "step Resubmit s = resubmit s"

definition launches_only :: "event list \<Rightarrow> bool" where
  "launches_only schedule = (Finish \<notin> set schedule \<and> Resubmit \<notin> set schedule)"

definition run :: "event list \<Rightarrow> shared \<Rightarrow> shared" where
  "run schedule s = fold step schedule s"

definition launch :: "bool \<Rightarrow> entry \<Rightarrow> entry \<Rightarrow> (nat \<Rightarrow> bool) \<Rightarrow> shared" where
  "launch l j sub acc =
     \<lparr>lock = l, jobinfo = j, submit = sub, pcs = (\<lambda>i. Start), accepts = acc,
      attempts = 0, accepted = 0, written = 0\<rparr>"

text \<open>
  Sets of places: \<open>owns\<close>, the process has created the lock and not yet come to a
  removal of it that follows a success; \<open>submits\<close>, it has found no \<^verbatim>\<open>jobinfo.yaml\<close> and is
  about to run the command or to write the file; \<open>past\<close>, it has written or found
  \<^verbatim>\<open>jobinfo.yaml\<close>; \<open>submitted\<close>, it has written it; \<open>failed\<close>, its command failed;
  \<open>raised\<close>, an exception ended it. \<open>wellformed\<close> lists the outcomes and exit codes that
  occur together.
\<close>

definition owns :: "pc \<Rightarrow> bool" where
  "owns p = (p = Locked \<or> p = Submitting \<or> p = Writing \<or> p = Exiting 1 Failed
      \<or> p = Exiting 1 Raised)"

definition submits :: "pc \<Rightarrow> bool" where
  "submits p = (p = Submitting \<or> p = Writing)"

definition past :: "pc \<Rightarrow> bool" where
  "past p = (case p of Unlocking out \<Rightarrow> out = Submitted \<or> out = AlreadyActive
      | Exiting rc out \<Rightarrow> rc = 0 \<and> (out = Submitted \<or> out = AlreadyActive)
      | Done rc out \<Rightarrow> rc = 0 \<and> (out = Submitted \<or> out = AlreadyActive)
      | _ \<Rightarrow> False)"

definition submitted :: "pc \<Rightarrow> bool" where
  "submitted p = (p = Unlocking Submitted \<or> p = Exiting 0 Submitted \<or> p = Done 0 Submitted)"

definition wellformed :: "pc \<Rightarrow> bool" where
  "wellformed p = (case p of Unlocking out \<Rightarrow> out = Submitted \<or> out = AlreadyActive
      | Exiting rc out \<Rightarrow> (rc = 0 \<and> (out = Submitted \<or> out = AlreadyActive))
          \<or> (rc = 1 \<and> (out = Failed \<or> out = Raised))
      | Done rc out \<Rightarrow> (rc = 0 \<and> (out = Submitted \<or> out = AlreadyActive \<or> out = Conflict))
          \<or> (rc = 1 \<and> (out = Failed \<or> out = Raised))
      | _ \<Rightarrow> True)"

definition failed :: "pc \<Rightarrow> bool" where
  "failed p =
     (case p of Unlocking out \<Rightarrow> out = Failed | Exiting rc out \<Rightarrow> out = Failed
      | Done rc out \<Rightarrow> out = Failed | _ \<Rightarrow> False)"

definition raised :: "pc \<Rightarrow> bool" where
  "raised p =
     (case p of Unlocking out \<Rightarrow> out = Raised | Exiting rc out \<Rightarrow> out = Raised
      | Done rc out \<Rightarrow> out = Raised | _ \<Rightarrow> False)"

text \<open>A scheduler that accepts every submission, and one that rejects the first only.\<close>

definition always :: "nat \<Rightarrow> bool" where
  "always n = True"

definition after_first :: "nat \<Rightarrow> bool" where
  "after_first n = (n \<noteq> 0)"











text \<open>
  The steps against the sequential launch. \<open>entry_of\<close> reads an entry of the working
  directory and \<open>command\<close> is the rendered submission command (\<^verbatim>\<open>.submit\<close> being a regular
  file). \<open>solo\<close> is the run of one process alone, from the entries of the world \<open>w\<close> and
  with the scheduler's answer to the command; \<open>seen\<close> is the outcome that the launch has
  in \<open>w\<close>.
\<close>

definition entry_of :: "node option \<Rightarrow> entry" where
  "entry_of n = (case n of None \<Rightarrow> Absent | Some Dir \<Rightarrow> Directory | Some (File text) \<Rightarrow> Regular)"

definition command :: "service \<Rightarrow> world \<Rightarrow> string" where
  "command self w =
     (case files w ''.submit'' of
        Some (File text) \<Rightarrow> (case render self w text of Inr cmd \<Rightarrow> cmd | Inl e \<Rightarrow> [])
      | _ \<Rightarrow> [])"

definition seen :: "service \<Rightarrow> info \<Rightarrow> world \<Rightarrow> outcome" where
  "seen self args w =
     (if ''submit.lock'' \<in> dom (files w) then Conflict
      else if ''jobinfo.yaml'' \<in> dom (files w) then AlreadyActive
      else if entry_of (files w ''.submit'') \<noteq> Regular then Raised
      else if returncode (shell w (command self w) (slurm_script self args w)) = 0 then Submitted
      else Failed)"

definition solo :: "service \<Rightarrow> info \<Rightarrow> world \<Rightarrow> shared" where
  "solo self args w =
     run [Step 0, Step 0, Step 0, Step 0, Step 0, Step 0]
       (launch (''submit.lock'' \<in> dom (files w)) (entry_of (files w ''jobinfo.yaml''))
          (entry_of (files w ''.submit''))
          (\<lambda>n. returncode (shell w (command self w) (slurm_script self args w)) = 0))"


definition one_by_one :: "event list" where
  "one_by_one =
     [Step 0, Step 0, Step 0, Step 0, Step 0, Step 0, Step 1, Step 1, Step 1, Step 1, Step 1, Step 1]"

definition restarted :: "event list" where
  "restarted =
     [Step 0, Step 0, Step 0, Step 0, Step 0, Step 0, Finish,
      Step 1, Step 1, Step 1, Step 1, Step 1, Step 1]"

section \<open>Properties\<close>

subsection \<open>Manifest filtering\<close>

lemma filter_loop_step:
  "filter_loop w d (x # xs) m = filter_loop w d xs (if pending w d x then m else remove1 x m)"
  by (simp add: pending_def)

lemma filter_loop_filter:
  "list_all (pending w d) ys \<Longrightarrow>
   filter_loop w d xs (ys @ xs) = ys @ filter (pending w d) xs"
proof (induction xs arbitrary: ys)
  case Nil
  then show ?case by simp
next
  case (Cons x xs)
  show ?case
  proof (cases "pending w d x")
    case True
    with Cons.prems have "list_all (pending w d) (ys @ [x])" by simp
    from Cons.IH [OF this] True show ?thesis
      unfolding filter_loop_step by simp
  next
    case False
    have "x \<notin> set ys" using Cons.prems False by (auto simp: list_all_iff)
    then have "remove1 x (ys @ x # xs) = ys @ xs" by (simp add: remove1_append)
    with Cons.IH [OF Cons.prems] False show ?thesis
      unfolding filter_loop_step by simp
  qed
qed

lemma filter_jobdata_filter:
  "manifest (filter_jobdata w jd) = filter (pending w (jobdir jd)) (manifest jd)"
  using filter_loop_filter [of w "jobdir jd" "[]" "manifest jd"]
  by (simp add: filter_jobdata_def)

subsection \<open>Template rendering\<close>

lemma not_id_start [simp]: "\<not> is_id_start CHR ''{''" "\<not> is_id_start CHR ''$''"
  by (simp_all add: is_id_start_def)

lemma takeWhile_id_nonempty: "is_id_start c \<Longrightarrow> takeWhile is_id_char (c # cs) \<noteq> []"
  by (simp add: is_id_char_def)

lemma convert_match_delim: "\<exists>s. convert m (fst (match_delim cs)) = Inr s"
proof (cases cs)
  case Nil
  then show ?thesis by (simp add: match_delim_def convert_def py_or_def no_match_def)
next
  case (Cons c rest)
  consider "c = CHR ''$''" | "is_id_start c" | "c = CHR ''{''" | "c \<noteq> CHR ''$''" "\<not> is_id_start c" "c \<noteq> CHR ''{''"
    by blast
  then show ?thesis
  proof cases
    case 1
    with Cons show ?thesis by (simp add: match_delim_def convert_def py_or_def no_match_def)
  next
    case 2
    then have "c \<noteq> CHR ''$''" by auto
    with 2 Cons takeWhile_id_nonempty [OF 2, of rest] show ?thesis
      by (auto simp: match_delim_def convert_def py_or_def no_match_def split: option.splits)
  next
    case 3
    with Cons show ?thesis
      by (cases rest; cases "dropWhile is_id_char rest")
         (auto simp: match_delim_def convert_def py_or_def no_match_def takeWhile_id_nonempty
               split: option.splits)
  next
    case 4
    with Cons show ?thesis by (simp add: match_delim_def convert_def py_or_def no_match_def)
  qed
qed

lemma pattern_sub_total: "\<exists>s. pattern_sub (convert m) t = Inr s"
proof (induction "convert m" t rule: pattern_sub.induct)
  case 1
  show ?case by simp
next
  case (2 c cs)
  show ?case
  proof (cases "c = CHR ''$''")
    case True
    obtain s where s: "convert m (fst (match_delim cs)) = Inr s"
      using convert_match_delim by blast
    from "2.hyps"(1) [OF True s] obtain t where "pattern_sub (convert m) (snd (match_delim cs)) = Inr t"
      by blast
    with True s show ?thesis by simp
  next
    case False
    from "2.hyps"(2) [OF False] obtain t where "pattern_sub (convert m) cs = Inr t" by blast
    with False show ?thesis by simp
  qed
qed

lemma pattern_sub_plain:
  "CHR ''$'' \<notin> set pre \<Longrightarrow> pattern_sub conv t = Inr s \<Longrightarrow> pattern_sub conv (pre @ t) = Inr (pre @ s)"
  by (induction pre) auto

lemma match_delim_named:
  assumes "is_identifier name" and "\<not> continues rest"
  shows "match_delim (name @ rest) =
           (no_match\<lparr>whole := CHR ''$'' # name, named := Some name\<rparr>, rest)"
proof -
  from assms(1) obtain c cs where n: "name = c # cs" and c: "is_id_start c" and cs: "list_all is_id_char cs"
    by (auto simp: is_identifier_def split: list.splits)
  have all: "\<And>x. x \<in> set name \<Longrightarrow> is_id_char x"
    using n c cs by (auto simp: is_id_char_def list_all_iff)
  have r: "takeWhile is_id_char rest = []" "dropWhile is_id_char rest = rest"
    using assms(2) by (cases rest; simp add: continues_def)+
  have t: "takeWhile is_id_char (name @ rest) = name"
    using all r by (simp add: takeWhile_append2)
  have d: "dropWhile is_id_char (name @ rest) = rest"
    using all r by (simp add: dropWhile_append2)
  have nd: "c \<noteq> CHR ''$''" using c by (auto simp: is_id_start_def)
  show ?thesis
    using t d nd c unfolding n match_delim_def by simp
qed

lemma template_vars_lookup:
  "template_vars self w name =
     (case env w name of Some v \<Rightarrow> Some v
      | None \<Rightarrow> if name = ''workdir'' then Some (absolute w (workdir self)) else None)"
  by (simp add: template_vars_def map_add_def split: option.splits)

lemma pattern_sub_named:
  assumes "is_identifier name" and "\<not> continues rest"
    and "pattern_sub (convert m) rest = Inr s"
  shows "pattern_sub (convert m) (CHR ''$'' # name @ rest) =
           Inr ((case m name of Some v \<Rightarrow> v | None \<Rightarrow> CHR ''$'' # name) @ s)"
proof -
  have ne: "name \<noteq> []" using assms(1) by (auto simp: is_identifier_def)
  have "convert m (no_match\<lparr>whole := CHR ''$'' # name, named := Some name\<rparr>) =
          Inr (case m name of Some v \<Rightarrow> v | None \<Rightarrow> CHR ''$'' # name)"
    using ne by (simp add: convert_def py_or_def no_match_def split: option.splits)
  then show ?thesis
    using assms(3) by (simp add: match_delim_named [OF assms(1,2)])
qed

subsection \<open>Manifest filtering: the claim\<close>

text \<open>
  C9 (amended). For every JobUnit, manifest filtering removes an item exactly when the item's
  name is not empty and its completion marker \<open>name.whisper.json\<close> exists in the job
  directory; an empty item name is never removed. The manifest only shrinks: the
  filtered manifest is the old one without the removed items, in the old order, and no
  other key of the job data changes. A manifest \<open>[a, b]\<close> with a marker for \<open>a\<close> only
  filters to \<open>[b]\<close>.
\<close>

theorem filter_jobdata_removes_marked:
  "filter_jobdata w jd =
     jd\<lparr>manifest :=
          filter (\<lambda>f. f = [] \<or> (jobdir jd, f @ ''.whisper.json'') \<notin> present w) (manifest jd)\<rparr>"
proof -
  have "pending w (jobdir jd) = (\<lambda>f. f = [] \<or> (jobdir jd, f @ ''.whisper.json'') \<notin> present w)"
    by (auto simp: pending_def fun_eq_iff)
  then have "manifest (filter_jobdata w jd) =
      filter (\<lambda>f. f = [] \<or> (jobdir jd, f @ ''.whisper.json'') \<notin> present w) (manifest jd)"
    using filter_jobdata_filter [of w jd] by simp
  then show ?thesis by (simp add: filter_jobdata_def)
qed

theorem filter_jobdata_removes_marked_witness:
  "manifest (filter_jobdata (world0\<lparr>present := {(''job'', ''a.whisper.json'')}\<rparr>)
      \<lparr>manifest = [''a'', ''b''], model = ''tiny'', jobdir = ''job'', settled = True\<rparr>) = [''b'']"
  using filter_jobdata_removes_marked [of "world0\<lparr>present := {(''job'', ''a.whisper.json'')}\<rparr>"
      "\<lparr>manifest = [''a'', ''b''], model = ''tiny'', jobdir = ''job'', settled = True\<rparr>"]
  by simp

text \<open>C9 as stated fails for the empty item name: its marker \<open>.whisper.json\<close> exists and
  the item stays in the manifest.\<close>

theorem filter_jobdata_keeps_empty_name:
  "(''job'', [] @ ''.whisper.json'')
      \<in> present (world0\<lparr>present := {(''job'', ''.whisper.json'')}\<rparr>)
   \<and> manifest (filter_jobdata (world0\<lparr>present := {(''job'', ''.whisper.json'')}\<rparr>)
        \<lparr>manifest = [[]], model = ''tiny'', jobdir = ''job'', settled = True\<rparr>) = [[]]"
  by (simp add: filter_jobdata_def)

subsection \<open>Start of the process\<close>

lemma logging_simps [simp]:
  "files (logging l m w) = files w" "atexit (logging l m w) = atexit w" "ran (logging l m w) = ran w"
  "shell (logging l m w) = shell w" "env (logging l m w) = env w" "is_dir (logging l m w) = is_dir w"
  "present (logging l m w) = present w" "handed (logging l m w) = handed w"
  "now (logging l m w) = now w" "glob (logging l m w) = glob w" "load (logging l m w) = load w"
  "mtime (logging l m w) = mtime w" "transcribes (logging l m w) = transcribes w"
  "script (logging l m w) = script w" "yaml_dump (logging l m w) = yaml_dump w"
  "yaml_load (logging l m w) = yaml_load w" "cuda (logging l m w) = cuda w"
  "absolute (logging l m w) = absolute w" "handler (logging l m w) = handler w"
  "cwd_path (logging l m w) = cwd_path w"
  "usr1 (logging l m w) = usr1 w" "ticks (logging l m w) = ticks w"
  "log (logging l m w) = log w @ [(l, m)]"
  by (simp_all add: logging_def absolute_def fun_eq_iff)

lemma absolute_root [simp]: "absolute w (CHR ''/'' # p) = CHR ''/'' # p"
  by (simp add: absolute_def is_absolute_def)

lemma absolute_update [simp]:
  "absolute (w\<lparr>log := l\<rparr>) = absolute w" "absolute (w\<lparr>files := f\<rparr>) = absolute w"
  "absolute (w\<lparr>atexit := a\<rparr>) = absolute w" "absolute (w\<lparr>ran := r\<rparr>) = absolute w"
  "absolute (w\<lparr>now := t\<rparr>) = absolute w" "absolute (w\<lparr>ticks := n\<rparr>) = absolute w"
  "absolute (w\<lparr>handler := h\<rparr>) = absolute w" "absolute (w\<lparr>handed := hs\<rparr>) = absolute w"
  by (simp_all add: absolute_def fun_eq_iff)

text \<open>
  C10. If the working directory is a directory without a \<^verbatim>\<open>.submit\<close> file, \<^verbatim>\<open>main\<close> ends
  with \<^verbatim>\<open>exit(1)\<close> and the process with status 1; it writes the sample to
  \<^verbatim>\<open>.submit.sample\<close> exactly when that file is absent, and changes nothing else of the
  world but the log.
\<close>

theorem main_without_submit:
  "is_dir w \<Longrightarrow> ''.submit'' \<notin> dom (files w) \<Longrightarrow> atexit w = [] \<Longrightarrow>
   main self args w =
     Some (Exit 1, self\<lparr>workdir := workdir_arg args\<rparr>,
           w\<lparr>log := log w @ (ERROR, ''The working direcory doesn't contain a .submit file'')
                    # (if ''.submit.sample'' \<in> dom (files w) then []
                       else [(INFO, ''Creating a sample .submit file'')]),
             files := (if ''.submit.sample'' \<in> dom (files w) then files w
                     else (files w)(''.submit.sample'' \<mapsto> File sample))\<rparr>)
   \<and> process self args w =
     Some (1,
           w\<lparr>log := log w @ (ERROR, ''The working direcory doesn't contain a .submit file'')
                    # (if ''.submit.sample'' \<in> dom (files w) then []
                       else [(INFO, ''Creating a sample .submit file'')]),
             files := (if ''.submit.sample'' \<in> dom (files w) then files w
                     else (files w)(''.submit.sample'' \<mapsto> File sample))\<rparr>)"
  by (auto simp: main_def process_def sanity_def run_atexit_def exit_status_def logging_def)

theorem main_without_submit_witness:
  "process (init [] 300)
      \<lparr>debug = False, continuation = False, workdir_arg = ''/jobs/run1'', jobid = None\<rparr>
      (world0\<lparr>files := Map.empty\<rparr>)
    = Some (1,
        world0\<lparr>files := [''.submit.sample'' \<mapsto> File sample],
          log := [(ERROR, ''The working direcory doesn't contain a .submit file''),
                  (INFO, ''Creating a sample .submit file'')]\<rparr>)"
  using main_without_submit [of "world0\<lparr>files := Map.empty\<rparr>" "init [] 300"
     "\<lparr>debug = False, continuation = False, workdir_arg = ''/jobs/run1'', jobid = None\<rparr>"]
  by (simp add: world0_def)

lemmas eval_defs = world0_def args0_def rejecting_def init_def render_def strip_def is_space_def
  safe_substitute_def template_vars_def match_delim_def convert_def py_or_def no_match_def
  is_id_start_def is_id_char_def slurm_script_def logging_def str_int_def digits.simps
  str_opt_def unlink_def

lemma rejecting_fresh:
  "fst (fresh_launch (init ''/jobs/run1'' 300) args0 rejecting) = Exit 1"
  by (simp add: fresh_launch_def locked_body_def self_submission_def eval_defs)

lemma self_submission_atexit: "atexit (snd (self_submission self jinfo w)) = atexit w"
  by (simp add: self_submission_def Let_def split: option.splits node.splits sum.splits)

lemma locked_body_atexit: "atexit (snd (locked_body self args w)) = atexit w"
  using self_submission_atexit [of self "args\<lparr>jobid := None\<rparr>" w]
  by (cases "self_submission self (args\<lparr>jobid := None\<rparr>) w")
     (auto simp: locked_body_def split: result.splits)

lemma files_fold_unlink:
  "files (fold unlink ps w) = (\<lambda>q. if q \<in> set ps then None else files w q)"
  by (induction ps arbitrary: w) (auto simp: unlink_def fun_eq_iff)

lemma run_atexit_removes: "p \<in> set (atexit w) \<Longrightarrow> p \<notin> dom (files (run_atexit w))"
  by (simp add: run_atexit_def files_fold_unlink dom_def)

lemma fresh_launch_atexit:
  "''submit.lock'' \<notin> dom (files w) \<Longrightarrow> ''submit.lock'' \<in> set (atexit (snd (fresh_launch self args w)))"
  using locked_body_atexit [of self args "w\<lparr>files := (files w)(''submit.lock'' \<mapsto> File []),
                   atexit := atexit w @ [''submit.lock'']\<rparr>"]
  by (cases "locked_body self args (w\<lparr>files := (files w)(''submit.lock'' \<mapsto> File []),
                   atexit := atexit w @ [''submit.lock'']\<rparr>)")
     (auto simp: fresh_launch_def unlink_def split: result.splits)

text \<open>
  C7. A launch that is not a continuation and finds no \<^verbatim>\<open>submit.lock\<close> creates the lock and
  registers its removal; however the launch ends (return, \<^verbatim>\<open>exit\<close> or exception, the
  result \<open>r\<close>), the lock is gone when the process has exited.
\<close>

theorem lock_released:
  "is_dir w \<Longrightarrow> ''.submit'' \<in> dom (files w) \<Longrightarrow> ''submit.lock'' \<notin> dom (files w) \<Longrightarrow>
   \<not> (continuation args \<and> ''jobinfo.yaml'' \<in> dom (files w)) \<Longrightarrow>
   \<exists>r w'. fresh_launch (self\<lparr>workdir := workdir_arg args\<rparr>) (args\<lparr>continuation := False\<rparr>) w = (r, w')
      \<and> ''submit.lock'' \<in> set (atexit w')
      \<and> process self args w = Some (exit_status r, run_atexit w')
      \<and> ''submit.lock'' \<notin> dom (files (run_atexit w'))"
proof -
  assume a: "is_dir w" "''.submit'' \<in> dom (files w)" "''submit.lock'' \<notin> dom (files w)"
    "\<not> (continuation args \<and> ''jobinfo.yaml'' \<in> dom (files w))"
  obtain r w' where f: "fresh_launch (self\<lparr>workdir := workdir_arg args\<rparr>) (args\<lparr>continuation := False\<rparr>) w = (r, w')"
    by (cases "fresh_launch (self\<lparr>workdir := workdir_arg args\<rparr>) (args\<lparr>continuation := False\<rparr>) w")
  have l: "''submit.lock'' \<in> set (atexit w')"
    using fresh_launch_atexit [OF a(3), of "self\<lparr>workdir := workdir_arg args\<rparr>" "args\<lparr>continuation := False\<rparr>"] f
    by simp
  have s: "sanity (self\<lparr>workdir := workdir_arg args\<rparr>) w = None"
    using a(1,2) by (simp add: sanity_def)
  have p: "process self args w = Some (exit_status r, run_atexit w')"
    using a(4) f s by (auto simp: process_def main_def)
  show ?thesis using f l p run_atexit_removes [OF l] by simp
qed

theorem lock_released_witness:
  "\<exists>w'. process (init [] 300) args0 rejecting = Some (1, w') \<and> ''submit.lock'' \<notin> dom (files w')"
proof -
  have "is_dir rejecting" "''.submit'' \<in> dom (files rejecting)"
    "''submit.lock'' \<notin> dom (files rejecting)"
    "\<not> (continuation args0 \<and> ''jobinfo.yaml'' \<in> dom (files rejecting))"
    by (simp_all add: rejecting_def world0_def args0_def)
  from lock_released [OF this, of "init [] 300"]
  obtain r w' where
    f: "fresh_launch (init [] 300\<lparr>workdir := workdir_arg args0\<rparr>) (args0\<lparr>continuation := False\<rparr>) rejecting = (r, w')"
    and p: "process (init [] 300) args0 rejecting = Some (exit_status r, run_atexit w')"
    and l: "''submit.lock'' \<notin> dom (files (run_atexit w'))"
    by blast
  have "init [] 300\<lparr>workdir := workdir_arg args0\<rparr> = init ''/jobs/run1'' 300"
    "args0\<lparr>continuation := False\<rparr> = args0"
    by (simp_all add: init_def args0_def)
  with f rejecting_fresh have "r = Exit 1" by simp
  with p l show ?thesis by (simp add: exit_status_def)
qed

subsection \<open>Submission\<close>

lemma slurm_script_cong [simp]:
  "slurm_script self jinfo (logging l m w) = slurm_script self jinfo w"
  "slurm_script self jinfo (w\<lparr>files := f\<rparr>) = slurm_script self jinfo w"
  "slurm_script self jinfo (w\<lparr>atexit := a\<rparr>) = slurm_script self jinfo w"
  "slurm_script self (jinfo\<lparr>jobid := j\<rparr>) w = slurm_script self jinfo w"
  "slurm_script self (jinfo\<lparr>continuation := c\<rparr>) w = slurm_script self jinfo w"
  by (simp_all add: slurm_script_def logging_def)

lemma render_cong [simp]:
  "render self (w\<lparr>files := f\<rparr>) text = render self w text"
  "render self (w\<lparr>atexit := a\<rparr>) text = render self w text"
  by (simp_all add: render_def template_vars_def)




subsection \<open>Discovery and the settle time\<close>

lemma checkpoint_no_handler: "handler w = None \<Longrightarrow> checkpoint self w = (Ok (), w)"
  by (simp add: checkpoint_def)

lemma settle_loop_Some:
  assumes "settle_loop self results w = Some y"
  shows "\<not> (results \<noteq> [] \<and> filter settled results = [] \<and> 0 \<le> JOB_SETTLE_TIME self
            \<and> handler w = None)"
proof (rule settle_loop.raw_induct
    [where P = "\<lambda>self results w y.
       \<not> (results \<noteq> [] \<and> filter settled results = [] \<and> 0 \<le> JOB_SETTLE_TIME self
            \<and> handler w = None)",
     OF _ assms])
  fix f :: "service \<Rightarrow> jobdata list \<Rightarrow> world \<Rightarrow> (jobdata list result \<times> world) option"
    and self results w y
  assume IH: "\<And>self results w y. f self results w = Some y \<Longrightarrow>
       \<not> (results \<noteq> [] \<and> filter settled results = [] \<and> 0 \<le> JOB_SETTLE_TIME self
            \<and> handler w = None)"
    and eq: "(if results \<noteq> [] \<and> filter settled results = []
      then if JOB_SETTLE_TIME self < 0
           then Some (Raise ValueError, logging INFO ''Waiting for jobs to settle.'' w)
           else (case checkpoint self (logging INFO ''Waiting for jobs to settle.'' w) of
              (Ok u, w') \<Rightarrow> f self results (w'\<lparr>now := now w' + JOB_SETTLE_TIME self\<rparr>)
            | (Exit n, w') \<Rightarrow> Some (Exit n, w')
            | (Raise e, w') \<Rightarrow> Some (Raise e, w'))
      else Some (Ok results, w)) = Some y"
  show "\<not> (results \<noteq> [] \<and> filter settled results = [] \<and> 0 \<le> JOB_SETTLE_TIME self
            \<and> handler w = None)"
  proof
    assume c: "results \<noteq> [] \<and> filter settled results = [] \<and> 0 \<le> JOB_SETTLE_TIME self
            \<and> handler w = None"
    then have "checkpoint self (logging INFO ''Waiting for jobs to settle.'' w)
        = (Ok (), logging INFO ''Waiting for jobs to settle.'' w)"
      by (simp add: checkpoint_no_handler)
    with eq c have "f self results ((logging INFO ''Waiting for jobs to settle.'' w)
                  \<lparr>now := now w + JOB_SETTLE_TIME self\<rparr>) = Some y" by simp
    from IH [OF this] c show False by simp
  qed
qed

lemma settle_loop_diverges:
  "results \<noteq> [] \<Longrightarrow> filter settled results = [] \<Longrightarrow> 0 \<le> JOB_SETTLE_TIME self \<Longrightarrow>
   handler w = None \<Longrightarrow> settle_loop self results w = None"
  using settle_loop_Some [of self results w] by (cases "settle_loop self results w") auto

lemma settle_loop_returns:
  "\<not> (results \<noteq> [] \<and> filter settled results = []) \<Longrightarrow>
   settle_loop self results w = Some (Ok results, w)"
  by (subst settle_loop.simps) auto

lemma settle_loop_negative:
  "results \<noteq> [] \<Longrightarrow> filter settled results = [] \<Longrightarrow> JOB_SETTLE_TIME self < 0 \<Longrightarrow>
   settle_loop self results w = Some (Raise ValueError, logging INFO ''Waiting for jobs to settle.'' w)"
  by (subst settle_loop.simps) simp

lemma unsettled_discover:
  "discover ''whisper.job'' (glob unsettled ''whisper.job'') [] (init ''/jobs/run1'' 300) unsettled
   = (Ok [\<lparr>manifest = [''b.wav''], model = ''tiny'', jobdir = ''new'', settled = False\<rparr>],
      init ''/jobs/run1'' 300, unsettled)"
  by (simp add: unsettled_def world0_def init_def filter_jobdata_def)

text \<open>
  C2 on the code. The claim: when discovery finds pending JobUnits and none is settled,
  \<^verbatim>\<open>get_todo_list\<close> waits one settle duration, retries, and in the end returns settled work.
  The code sleeps and then filters the same \<open>results\<close> again, whose \<open>settled\<close> entries were
  computed once: in the world \<open>unsettled\<close> the call never returns.
\<close>

theorem get_todo_list_never_returns:
  "get_todo_list ''whisper.job'' (init ''/jobs/run1'' 300) unsettled = None"
proof -
  have "settle_loop (init ''/jobs/run1'' 300)
          [\<lparr>manifest = [''b.wav''], model = ''tiny'', jobdir = ''new'', settled = False\<rparr>] unsettled = None"
    by (rule settle_loop_diverges) (simp_all add: init_def unsettled_def world0_def)
  then show ?thesis by (simp add: get_todo_list_def unsettled_discover)
qed

text \<open>
  C3 on the code. The claim: a descriptor that cannot be parsed is logged once, skipped,
  and never raises out of \<^verbatim>\<open>get_todo_list\<close>. The code reads \<^verbatim>\<open>self.job_warnings\<close>, which
  nothing assigns: in the world \<open>unreadable\<close> the call raises AttributeError, with nothing
  logged.
\<close>

theorem get_todo_list_raises:
  "get_todo_list ''whisper.job'' (init ''/jobs/run1'' 300) unreadable
     = Some (Raise AttributeError, init ''/jobs/run1'' 300, unreadable)"
  by (simp add: get_todo_list_def unreadable_def world0_def init_def)

lemma mixed_todo:
  "get_todo_list ''whisper.job'' (init ''/jobs/run1'' 300) mixed
     = Some (Ok [\<lparr>manifest = [''a.wav''], model = ''tiny'', jobdir = ''old'', settled = True\<rparr>,
                 \<lparr>manifest = [''b.wav''], model = ''tiny'', jobdir = ''new'', settled = False\<rparr>],
             init ''/jobs/run1'' 300, mixed)"
  by (simp add: get_todo_list_def mixed_def world0_def init_def filter_jobdata_def settle_loop_returns)

lemmas work_defs = get_todo_list_def mixed_def world0_def init_def filter_jobdata_def
  settle_loop_returns pass_def logging_def startup_def checkpoint_def str_int_def digits.simps

text \<open>
  C1 on the code. The claim: a JobUnit whose descriptor was modified less than the settle
  duration ago is never handed to the work on its items. \<^verbatim>\<open>get_todo_list\<close> returns
  \<open>results\<close>, not the settled ones: in the world \<open>mixed\<close> the item of the job directory
  \<open>new\<close>, modified 10 ticks ago, is handed over in the same pass as the settled one.
\<close>

theorem work_hands_over_unsettled_job:
  "\<exists>w'. work (init ''/jobs/run1'' 300) mixed = Some (Ok (), init ''/jobs/run1'' 300, w')
      \<and> handed w' = [(''old'', ''a.wav''), (''new'', ''b.wav'')]
      \<and> now mixed - mtime mixed (''new'', ''whisper.job'') < JOB_SETTLE_TIME (init ''/jobs/run1'' 300)"
  unfolding work_def
  apply (subst work_loop.simps)
  apply (simp add: work_defs)
  apply (subst work_loop.simps)
  apply (simp add: work_defs)
  done

subsection \<open>The end of the work loop\<close>

lemma self_submission_dom:
  "dom (files w) \<subseteq> dom (files (snd (self_submission self jinfo w)))"
  by (auto simp: self_submission_def Let_def split: option.splits node.splits sum.splits)

lemma usr1handler_dom: "dom (files w) \<subseteq> dom (files (snd (usr1handler self inf0 w)))"
proof (cases inf0)
  case NotMapping
  then show ?thesis
    by (auto simp: usr1handler_def no_debug_def split: option.splits node.splits sum.splits)
next
  case NoDebug
  then show ?thesis
    by (auto simp: usr1handler_def no_debug_def split: option.splits node.splits sum.splits)
next
  case (Mapping jinfo)
  obtain r w' where s: "self_submission self jinfo w = (r, w')"
    by (cases "self_submission self jinfo w")
  with self_submission_dom [of w self jinfo] have "dom (files w) \<subseteq> dom (files w')" by simp
  with Mapping s show ?thesis by (cases r) (simp_all add: usr1handler_def)
qed

lemma checkpoint_dom: "dom (files w) \<subseteq> dom (files (snd (checkpoint self w)))"
  using usr1handler_dom [of "w\<lparr>ticks := Suc (ticks w)\<rparr>" self]
  by (auto simp: checkpoint_def split: option.splits)

lemma checkpoint_dom': "checkpoint self w = (r, w') \<Longrightarrow> dom (files w) \<subseteq> dom (files w')"
  using checkpoint_dom [of w self] by simp

lemma discover_files: "discover name ds results self w = (r, self', w') \<Longrightarrow> files w' = files w"
proof (induction ds arbitrary: results self w)
  case Nil
  then show ?case by simp
next
  case (Cons d ds)
  show ?case
  proof (cases "load w (d, name)")
    case (Unreadable e)
    with Cons.prems Cons.IH show ?thesis
      by (auto split: option.splits if_splits)
  next
    case (Parsed m mdl)
    with Cons.prems Cons.IH show ?thesis
      by (auto split: if_splits)
  qed
qed

lemma settle_loop_dom:
  assumes "settle_loop self results w = Some y"
  shows "dom (files w) \<subseteq> dom (files (snd y))"
proof (rule settle_loop.raw_induct
    [where P = "\<lambda>self results w y. dom (files w) \<subseteq> dom (files (snd y))", OF _ assms])
  fix f :: "service \<Rightarrow> jobdata list \<Rightarrow> world \<Rightarrow> (jobdata list result \<times> world) option"
    and self results w y
  assume IH: "\<And>self results w y. f self results w = Some y \<Longrightarrow> dom (files w) \<subseteq> dom (files (snd y))"
    and eq: "(if results \<noteq> [] \<and> filter settled results = []
      then if JOB_SETTLE_TIME self < 0
           then Some (Raise ValueError, logging INFO ''Waiting for jobs to settle.'' w)
           else (case checkpoint self (logging INFO ''Waiting for jobs to settle.'' w) of
              (Ok u, w') \<Rightarrow> f self results (w'\<lparr>now := now w' + JOB_SETTLE_TIME self\<rparr>)
            | (Exit n, w') \<Rightarrow> Some (Exit n, w')
            | (Raise e, w') \<Rightarrow> Some (Raise e, w'))
      else Some (Ok results, w)) = Some y"
  obtain r w' where c: "checkpoint self (logging INFO ''Waiting for jobs to settle.'' w) = (r, w')"
    by (cases "checkpoint self (logging INFO ''Waiting for jobs to settle.'' w)")
  have d: "dom (files w) \<subseteq> dom (files w')" using checkpoint_dom' [OF c] by simp
  show "dom (files w) \<subseteq> dom (files (snd y))"
  proof (cases "results \<noteq> [] \<and> filter settled results = []")
    case False
    with eq show ?thesis by auto
  next
    case True
    show ?thesis
    proof (cases "JOB_SETTLE_TIME self < 0")
      case True
      with eq \<open>results \<noteq> [] \<and> filter settled results = []\<close> show ?thesis by auto
    next
      case False
      show ?thesis
      proof (cases r)
        case (Ok u)
        with eq True False c have "f self results (w'\<lparr>now := now w' + JOB_SETTLE_TIME self\<rparr>) = Some y"
          by simp
        from IH [OF this] d show ?thesis by simp
      next
        case (Exit n)
        with eq True False c d show ?thesis by auto
      next
        case (Raise e)
        with eq True False c d show ?thesis by auto
      qed
    qed
  qed
qed

lemma get_todo_list_dom:
  assumes "get_todo_list name self w = Some (r, self', w')"
  shows "dom (files w) \<subseteq> dom (files w')"
proof (cases "discover name (glob w name) [] self w")
  case (fields r0 s0 w0)
  have f0: "files w0 = files w" by (rule discover_files [OF fields])
  show ?thesis
  proof (cases r0)
    case (Ok results)
    with assms fields obtain y where y: "settle_loop s0 results w0 = Some y" and w': "w' = snd y"
      by (auto simp: get_todo_list_def split: option.splits)
    from settle_loop_dom [OF y] f0 w' show ?thesis by simp
  next
    case (Exit n)
    with assms fields f0 show ?thesis by (auto simp: get_todo_list_def)
  next
    case (Raise e)
    with assms fields f0 show ?thesis by (auto simp: get_todo_list_def)
  qed
qed

lemma items_loop_dom: "dom (files w) \<subseteq> dom (files (snd (items_loop self d fs (n, w))))"
proof (induction fs arbitrary: n w)
  case Nil
  show ?case by simp
next
  case (Cons f fs)
  obtain r w' where c: "checkpoint self
             ((logging INFO (''Starting processing of '' @ f) w)
                \<lparr>handed := handed w @ [(d, f)]\<rparr>) = (r, w')"
    by (cases "checkpoint self
             ((logging INFO (''Starting processing of '' @ f) w)
                \<lparr>handed := handed w @ [(d, f)]\<rparr>)")
  have d: "dom (files w) \<subseteq> dom (files w')" using checkpoint_dom' [OF c] by simp
  show ?case
  proof (cases r)
    case (Ok u)
    show ?thesis
    proof (cases "transcribes w' (d, f)")
      case True
      with c Ok d Cons.IH [of "w'\<lparr>present := insert (d, f @ ''.whisper.json'') (present w')\<rparr>" "Suc n"]
      show ?thesis by simp
    next
      case False
      with c Ok d Cons.IH [of "logging ERROR (''Failed during transcription of '' @ f) w'" n]
      show ?thesis by simp
    qed
  next
    case (Exit k)
    with c d show ?thesis by simp
  next
    case (Raise e)
    with c d Cons.IH [of "logging ERROR (''Failed during transcription of '' @ f) w'" n]
    show ?thesis by simp
  qed
qed

lemma jobs_loop_dom: "dom (files w) \<subseteq> dom (files (snd (jobs_loop self mn ts (n, w))))"
proof (induction ts arbitrary: n w)
  case Nil
  show ?case by simp
next
  case (Cons t ts)
  obtain r w' where i: "items_loop self (jobdir t) (manifest t)
             (n, logging INFO (''Processing job in '' @ workdir self @ ''/'' @ jobdir t) w) = (r, w')"
    by (cases "items_loop self (jobdir t) (manifest t)
             (n, logging INFO (''Processing job in '' @ workdir self @ ''/'' @ jobdir t) w)")
  have d: "dom (files w) \<subseteq> dom (files w')"
    using items_loop_dom [of "logging INFO (''Processing job in '' @ workdir self @ ''/'' @ jobdir t) w"
        self "jobdir t" "manifest t" n] i by simp
  show ?case
  proof (cases "model t \<noteq> mn")
    case True
    with Cons.IH show ?thesis by simp
  next
    case False
    show ?thesis
    proof (cases r)
      case (Ok n')
      with False i d Cons.IH [of w' n'] show ?thesis by (auto simp del: items_loop.simps)
    next
      case (Exit k)
      with False i d show ?thesis by (simp del: items_loop.simps)
    next
      case (Raise e)
      with False i d show ?thesis by (simp del: items_loop.simps)
    qed
  qed
qed

lemma models_loop_dom: "dom (files w) \<subseteq> dom (files (snd (models_loop self ms todo (n, w))))"
proof (induction ms arbitrary: n w)
  case Nil
  show ?case by simp
next
  case (Cons m ms)
  obtain r w' where j: "jobs_loop self m todo
          (n, logging INFO (''Starting processing for jobs using '' @ m @ '' model'') w) = (r, w')"
    by (cases "jobs_loop self m todo
          (n, logging INFO (''Starting processing for jobs using '' @ m @ '' model'') w)")
  have d: "dom (files w) \<subseteq> dom (files w')"
    using jobs_loop_dom [of "logging INFO (''Starting processing for jobs using '' @ m @ '' model'') w"
        self m todo n] j by simp
  show ?case
  proof (cases r)
    case (Ok n')
    with j d Cons.IH [of w' n'] show ?thesis by (auto simp del: jobs_loop.simps)
  next
    case (Exit k)
    with j d show ?thesis by (simp del: jobs_loop.simps)
  next
    case (Raise e)
    with j d show ?thesis by (simp del: jobs_loop.simps)
  qed
qed

lemma pass_dom: "pass self todo w = (r, w') \<Longrightarrow> dom (files w) \<subseteq> dom (files w')"
  using models_loop_dom [of "logging INFO (''Starting processing of '' @ str_int (int (length todo)) @ '' jobs'') w"
      self "remdups (map model todo)" todo 0]
  by (simp add: pass_def)

lemma work_loop_dom:
  assumes "work_loop self w = Some y"
  shows "dom (files w) \<subseteq> dom (files (snd (snd y)))"
proof (rule work_loop.raw_induct
    [where P = "\<lambda>self w y. dom (files w) \<subseteq> dom (files (snd (snd y)))", OF _ assms])
  fix f :: "service \<Rightarrow> world \<Rightarrow> (unit result \<times> service \<times> world) option"
    and self w y
  assume IH: "\<And>self w y. f self w = Some y \<Longrightarrow> dom (files w) \<subseteq> dom (files (snd (snd y)))"
    and eq: "(case checkpoint self w of
        (Exit n, w0) \<Rightarrow> Some (Exit n, self, w0)
      | (Raise e, w0) \<Rightarrow> Some (Raise e, self, w0)
      | (Ok u, w0) \<Rightarrow>
          (case get_todo_list ''whisper.job'' self w0 of
             None \<Rightarrow> None
           | Some (r, self', w') \<Rightarrow>
               (case r of
                  Ok todo \<Rightarrow>
                    if todo = [] then Some (Ok (), self', w')
                    else
                      (case pass self' todo w' of
                         (Ok process_count, w'') \<Rightarrow>
                           if process_count = 0 then
                             Some (Ok (), self',
                                   logging WARNING
                                     ''Some processes didn't complete even though they were valid''
                                     w'')
                           else f self' w''
                       | (Exit n, w'') \<Rightarrow> Some (Exit n, self', w'')
                       | (Raise e, w'') \<Rightarrow> Some (Raise e, self', w''))
                | Exit n \<Rightarrow> Some (Exit n, self', w')
                | Raise e \<Rightarrow> Some (Raise e, self', w')))) = Some y"
  obtain c w0 where c: "checkpoint self w = (c, w0)" by (cases "checkpoint self w")
  have d0: "dom (files w) \<subseteq> dom (files w0)" by (rule checkpoint_dom' [OF c])
  show "dom (files w) \<subseteq> dom (files (snd (snd y)))"
  proof (cases c)
    case (Exit n)
    with eq c d0 show ?thesis by auto
  next
    case (Raise e)
    with eq c d0 show ?thesis by auto
  next
    case (Ok u)
    with eq c obtain r self' w' where g: "get_todo_list ''whisper.job'' self w0 = Some (r, self', w')"
      by (auto split: option.splits)
    have d1: "dom (files w) \<subseteq> dom (files w')" using get_todo_list_dom [OF g] d0 by blast
    show ?thesis
    proof (cases r)
      case (Exit n)
      with eq c Ok g d1 show ?thesis by auto
    next
      case (Raise e)
      with eq c Ok g d1 show ?thesis by auto
    next
      case todo: (Ok todo)
      show ?thesis
      proof (cases "todo = []")
        case True
        with eq c Ok g todo d1 show ?thesis by auto
      next
        case False
        obtain p w'' where p: "pass self' todo w' = (p, w'')" by (cases "pass self' todo w'")
        have d2: "dom (files w) \<subseteq> dom (files w'')" using pass_dom [OF p] d1 by blast
        show ?thesis
        proof (cases p)
          case (Exit n)
          with eq c Ok g todo False p d2 show ?thesis by auto
        next
          case (Raise e)
          with eq c Ok g todo False p d2 show ?thesis by auto
        next
          case cnt: (Ok k)
          show ?thesis
          proof (cases "k = 0")
            case True
            with eq c Ok g todo False p cnt d2 show ?thesis by auto
          next
            case nz: False
            with eq c Ok g todo False p cnt have "f self' w'' = Some y" by simp
            from IH [OF this] d2 show ?thesis by blast
          qed
        qed
      qed
    qed
  qed
qed

lemma rounds_work_loop:
  "rounds n self w = Some (s, v) \<Longrightarrow> work_loop self w = work_loop s v"
proof (induction n arbitrary: self w)
  case 0
  then show ?case by simp
next
  case (Suc n)
  from Suc.prems obtain w0 todo self' w' k w'' where
    c: "checkpoint self w = (Ok (), w0)"
    and g: "get_todo_list ''whisper.job'' self w0 = Some (Ok todo, self', w')"
    and t: "todo \<noteq> []" and p: "pass self' todo w' = (Ok k, w'')" and k: "k \<noteq> 0"
    and r: "rounds n self' w'' = Some (s, v)"
    by (auto split: prod.splits result.splits option.splits if_splits)
  have "work_loop self w = work_loop self' w''"
    using c g t p k by (subst work_loop.simps) simp
  with Suc.IH [OF r] show ?case by simp
qed

lemmas cont_defs = get_todo_list_def continuing_def stuck_def stuck_after_def continuing_after_def
  preempted_def first_tick_def world0_def init_def args0_def
  filter_jobdata_def settle_loop_returns pass_def logging_def str_int_def digits.simps
  checkpoint_def startup_def shutdown_def unlink_def jobpath_def

lemma two_files:
  "[''.submit'' \<mapsto> File ''sbatch -D $workdir'', ''jobinfo.yaml'' \<mapsto> File ''jobinfo'']
     (''jobinfo.yaml'' := None) = [''.submit'' \<mapsto> File ''sbatch -D $workdir'']"
  by (auto simp: fun_eq_iff)

lemma stuck_main:
  "main (init [] 300) (args0\<lparr>continuation := True\<rparr>) stuck
     = Some (Ok (), init ''/jobs/run1'' 300, stuck_after)"
proof -
  have "work_loop (init ''/jobs/run1'' 300)
      (startup (stuck\<lparr>handler := Some (Mapping (args0\<lparr>continuation := True, jobid := Some ''4242''\<rparr>))\<rparr>))
     = Some (Ok (), init ''/jobs/run1'' 300,
         stuck\<lparr>handed := [(''old'', ''a.wav'')],
     log := [(INFO, ''Whisper will use cpu for computation''),
             (INFO, ''Starting processing of 1 jobs''),
             (INFO, ''Starting processing for jobs using tiny model''),
             (INFO, ''Processing job in /jobs/run1/old''),
             (INFO, ''Starting processing of a.wav''),
             (ERROR, ''Failed during transcription of a.wav''),
             (WARNING, ''Some processes didn't complete even though they were valid'')],
     handler := Some (Mapping (args0\<lparr>continuation := True, jobid := Some ''4242''\<rparr>)),
     ticks := 2\<rparr>)"
    by (subst work_loop.simps) (simp add: cont_defs)
  then show ?thesis
    by (simp add: main_def sanity_def work_def two_files cont_defs)
qed

lemma continuing_main:
  "main (init [] 300) (args0\<lparr>continuation := True\<rparr>) continuing
     = Some (Ok (), init ''/jobs/run1'' 300, continuing_after)"
proof -
  have "work_loop (init ''/jobs/run1'' 300)
      (startup (continuing\<lparr>handler := Some (Mapping (args0\<lparr>continuation := True, jobid := Some ''4242''\<rparr>))\<rparr>))
     = Some (Ok (), init ''/jobs/run1'' 300,
         continuing\<lparr>handed := [(''old'', ''a.wav'')],
     present := {(''old'', ''a.wav.whisper.json'')},
     log := [(INFO, ''Whisper will use cpu for computation''),
             (INFO, ''Starting processing of 1 jobs''),
             (INFO, ''Starting processing for jobs using tiny model''),
             (INFO, ''Processing job in /jobs/run1/old''),
             (INFO, ''Starting processing of a.wav''),
             (DEBUG, ''The job file /jobs/run1/old/whisper.job is finished, skipping'')],
     handler := Some (Mapping (args0\<lparr>continuation := True, jobid := Some ''4242''\<rparr>)),
     ticks := 3\<rparr>)"
    apply (subst work_loop.simps)
    apply (simp add: cont_defs)
    apply (subst work_loop.simps)
    apply (simp add: cont_defs)
    done
  then show ?thesis
    by (simp add: main_def sanity_def work_def two_files cont_defs)
qed

text \<open>
  C6 as stated fails: in the world \<open>stuck\<close> the pass completes no item, the work loop
  ends, and \<^verbatim>\<open>main\<close> deletes \<^verbatim>\<open>jobinfo.yaml\<close> although discovery still finds the pending
  JobUnit afterwards.
\<close>

theorem jobinfo_deleted_with_pending_jobs:
  "main (init [] 300) (args0\<lparr>continuation := True\<rparr>) stuck
     = Some (Ok (), init ''/jobs/run1'' 300, stuck_after)
   \<and> ''jobinfo.yaml'' \<in> dom (files stuck)
   \<and> ''jobinfo.yaml'' \<notin> dom (files stuck_after)
   \<and> get_todo_list ''whisper.job'' (init ''/jobs/run1'' 300) stuck_after
     = Some (Ok [\<lparr>manifest = [''a.wav''], model = ''tiny'', jobdir = ''old'', settled = True\<rparr>],
             init ''/jobs/run1'' 300, stuck_after)"
proof (intro conjI)
  show "main (init [] 300) (args0\<lparr>continuation := True\<rparr>) stuck
     = Some (Ok (), init ''/jobs/run1'' 300, stuck_after)"
    by (rule stuck_main)
next
  show "''jobinfo.yaml'' \<in> dom (files stuck)" by (simp add: stuck_def continuing_def world0_def)
next
  show "''jobinfo.yaml'' \<notin> dom (files stuck_after)"
    by (simp add: stuck_after_def stuck_def continuing_def world0_def)
next
  show "get_todo_list ''whisper.job'' (init ''/jobs/run1'' 300) stuck_after
     = Some (Ok [\<lparr>manifest = [''a.wav''], model = ''tiny'', jobdir = ''old'', settled = True\<rparr>],
             init ''/jobs/run1'' 300, stuck_after)"
    by (simp add: cont_defs)
qed

lemma main_continuation:
  assumes "is_dir w" and "''.submit'' \<in> dom (files w)" and "continuation args"
    and "files w ''jobinfo.yaml'' = Some (File text)" and "yaml_load w text = Some inf0"
  shows "main self args w =
     (case work_loop (self\<lparr>workdir := workdir_arg args\<rparr>) (startup (w\<lparr>handler := Some inf0\<rparr>)) of
        None \<Rightarrow> None
      | Some (r, self', w') \<Rightarrow>
          (case r of
             Ok u \<Rightarrow>
               (case checkpoint self' w' of
                  (Ok u', w'') \<Rightarrow> Some (Ok (), self', shutdown w'')
                | (Exit n, w'') \<Rightarrow> Some (Exit n, self', w'')
                | (Raise e, w'') \<Rightarrow> Some (Raise e, self', w''))
           | Exit n \<Rightarrow> Some (Exit n, self', w')
           | Raise e \<Rightarrow> Some (Raise e, self', w')))"
proof -
  have "sanity (self\<lparr>workdir := workdir_arg args\<rparr>) w = None"
    using assms(1,2) by (simp add: sanity_def)
  moreover have "''jobinfo.yaml'' \<in> dom (files w)" using assms(4) by auto
  ultimately show ?thesis
    using assms(3,4,5) by (simp add: main_def work_def)
qed

lemma main_keeps_or_deletes:
  assumes a: "is_dir w" "''.submit'' \<in> dom (files w)" "continuation args"
    "files w ''jobinfo.yaml'' = Some (File text)" "yaml_load w text = Some inf0"
    and m: "main self args w = Some (r, s, v)"
  shows "(r = Ok ()) = (''jobinfo.yaml'' \<notin> dom (files v))"
proof -
  note mc = main_continuation [OF a, of self]
  from m mc obtain r0 s0 v0 where
    wl: "work_loop (self\<lparr>workdir := workdir_arg args\<rparr>) (startup (w\<lparr>handler := Some inf0\<rparr>))
           = Some (r0, s0, v0)"
    by (auto split: option.splits)
  have "''jobinfo.yaml'' \<in> dom (files (startup (w\<lparr>handler := Some inf0\<rparr>)))"
    using a(4) by (auto simp: startup_def)
  with work_loop_dom [OF wl] have j0: "''jobinfo.yaml'' \<in> dom (files v0)" by auto
  show ?thesis
  proof (cases r0)
    case (Exit n)
    with m mc wl j0 show ?thesis by auto
  next
    case (Raise e)
    with m mc wl j0 show ?thesis by auto
  next
    case (Ok u)
    obtain c v1 where c: "checkpoint s0 v0 = (c, v1)" by (cases "checkpoint s0 v0")
    have j1: "''jobinfo.yaml'' \<in> dom (files v1)" using checkpoint_dom' [OF c] j0 by auto
    show ?thesis
    proof (cases c)
      case Ok': (Ok u')
      with m mc wl Ok c have "r = Ok ()" "v = shutdown v1" by auto
      then show ?thesis by (simp add: shutdown_def unlink_def)
    next
      case (Exit n)
      with m mc wl Ok c j1 show ?thesis by auto
    next
      case (Raise e)
      with m mc wl Ok c j1 show ?thesis by auto
    qed
  qed
qed

text \<open>
  C6 (amended). In a continuation, \<^verbatim>\<open>main\<close> deletes \<^verbatim>\<open>jobinfo.yaml\<close> exactly when it
  returns: the file is absent at the end if \<^verbatim>\<open>main\<close> has returned and present if the run
  has ended by an exception or by an \<^verbatim>\<open>exit\<close> (of the handler of SIGUSR1, which has run
  the submission command before). After any number \<open>n\<close> of productive rounds of the work
  loop, and without a signal, \<^verbatim>\<open>main\<close> returns, and so deletes the file, both when the
  next discovery finds no pending JobUnit and when the next pass completes no item while
  pending JobUnits remain; it raises when the discovery raises, does not return when
  the discovery does not, and exits with the handler when the signal arrives at the head
  of the round.
\<close>

theorem jobinfo_deleted_when_work_returns:
  assumes "is_dir w" and "''.submit'' \<in> dom (files w)" and "continuation args"
    and "files w ''jobinfo.yaml'' = Some (File text)" and "yaml_load w text = Some inf0"
  shows "(main self args w = Some (r, s', v') \<longrightarrow>
            (r = Ok ()) = (''jobinfo.yaml'' \<notin> dom (files v')))
    \<and> (rounds n (self\<lparr>workdir := workdir_arg args\<rparr>) (startup (w\<lparr>handler := Some inf0\<rparr>))
          = Some (s, v) \<longrightarrow>
        checkpoint s v = (Ok (), v0) \<longrightarrow>
        ((get_todo_list ''whisper.job'' s v0 = Some (Ok [], s', v') \<longrightarrow>
          checkpoint s' v' = (Ok (), v3) \<longrightarrow>
          main self args w = Some (Ok (), s', shutdown v3))
         \<and> (get_todo_list ''whisper.job'' s v0 = Some (Ok todo, s', v') \<longrightarrow> todo \<noteq> [] \<longrightarrow>
            pass s' todo v' = (Ok 0, v2) \<longrightarrow>
            checkpoint s'
              (logging WARNING ''Some processes didn't complete even though they were valid'' v2)
              = (Ok (), v3) \<longrightarrow>
            main self args w = Some (Ok (), s', shutdown v3))
         \<and> (get_todo_list ''whisper.job'' s v0 = Some (Raise e, s', v') \<longrightarrow>
            main self args w = Some (Raise e, s', v'))
         \<and> (get_todo_list ''whisper.job'' s v0 = None \<longrightarrow> main self args w = None)))
    \<and> (rounds n (self\<lparr>workdir := workdir_arg args\<rparr>) (startup (w\<lparr>handler := Some inf0\<rparr>))
          = Some (s, v) \<longrightarrow>
        checkpoint s v = (Exit k, v0) \<longrightarrow> main self args w = Some (Exit k, s, v0))"
proof (intro conjI impI)
  note mc = main_continuation [OF assms, of self]
  {
    assume "main self args w = Some (r, s', v')"
    from main_keeps_or_deletes [OF assms this]
    show "(r = Ok ()) = (''jobinfo.yaml'' \<notin> dom (files v'))" .
  next
    assume r: "rounds n (self\<lparr>workdir := workdir_arg args\<rparr>) (startup (w\<lparr>handler := Some inf0\<rparr>))
          = Some (s, v)" and c: "checkpoint s v = (Ok (), v0)"
    note u = rounds_work_loop [OF r]
    {
      assume "get_todo_list ''whisper.job'' s v0 = Some (Ok [], s', v')"
        and "checkpoint s' v' = (Ok (), v3)"
      then show "main self args w = Some (Ok (), s', shutdown v3)"
        using c unfolding mc u by (subst work_loop.simps) simp
    next
      assume "get_todo_list ''whisper.job'' s v0 = Some (Ok todo, s', v')" and "todo \<noteq> []"
        and "pass s' todo v' = (Ok 0, v2)"
        and "checkpoint s'
              (logging WARNING ''Some processes didn't complete even though they were valid'' v2)
              = (Ok (), v3)"
      then show "main self args w = Some (Ok (), s', shutdown v3)"
        using c unfolding mc u by (subst work_loop.simps) simp
    next
      assume "get_todo_list ''whisper.job'' s v0 = Some (Raise e, s', v')"
      then show "main self args w = Some (Raise e, s', v')"
        using c unfolding mc u by (subst work_loop.simps) simp
    next
      assume "get_todo_list ''whisper.job'' s v0 = None"
      then show "main self args w = None"
        using c unfolding mc u by (subst work_loop.simps) simp
    }
  next
    assume r: "rounds n (self\<lparr>workdir := workdir_arg args\<rparr>) (startup (w\<lparr>handler := Some inf0\<rparr>))
          = Some (s, v)" and c: "checkpoint s v = (Exit k, v0)"
    note u = rounds_work_loop [OF r]
    show "main self args w = Some (Exit k, s, v0)"
      using c unfolding mc u by (subst work_loop.simps) simp
  }
qed

theorem jobinfo_deleted_when_work_returns_witness:
  "main (init [] 300) (args0\<lparr>continuation := True\<rparr>) continuing
     = Some (Ok (), init ''/jobs/run1'' 300, continuing_after)
   \<and> rounds (Suc 0) (init ''/jobs/run1'' 300)
        (startup (continuing\<lparr>handler :=
           Some (Mapping (args0\<lparr>continuation := True, jobid := Some ''4242''\<rparr>))\<rparr>))
      = Some (init ''/jobs/run1'' 300, continuing_round)
   \<and> ''jobinfo.yaml'' \<in> dom (files continuing)
   \<and> ''jobinfo.yaml'' \<notin> dom (files continuing_after)"
proof -
  define inf0 where "inf0 = Mapping (args0\<lparr>continuation := True, jobid := Some ''4242''\<rparr>)"
  define s where "s = init ''/jobs/run1'' 300"
  have a: "is_dir continuing" "''.submit'' \<in> dom (files continuing)"
    "continuation (args0\<lparr>continuation := True\<rparr>)"
    "files continuing ''jobinfo.yaml'' = Some (File ''jobinfo'')"
    "yaml_load continuing ''jobinfo'' = Some inf0"
    by (simp_all add: continuing_def world0_def inf0_def)
  have s1: "init [] 300\<lparr>workdir := workdir_arg (args0\<lparr>continuation := True\<rparr>)\<rparr> = s"
    by (simp add: init_def args0_def s_def)
  have r: "rounds (Suc 0) s (startup (continuing\<lparr>handler := Some inf0\<rparr>)) = Some (s, continuing_round)"
    by (simp add: continuing_round_def inf0_def s_def cont_defs)
  have c: "checkpoint s continuing_round = (Ok (), continuing_round\<lparr>ticks := 3\<rparr>)"
    by (simp add: continuing_round_def s_def cont_defs)
  have g: "get_todo_list ''whisper.job'' s (continuing_round\<lparr>ticks := 3\<rparr>)
      = Some (Ok [], s,
          logging DEBUG ''The job file /jobs/run1/old/whisper.job is finished, skipping''
            (continuing_round\<lparr>ticks := 3\<rparr>))"
    by (simp add: continuing_round_def s_def cont_defs)
  have c': "checkpoint s
        (logging DEBUG ''The job file /jobs/run1/old/whisper.job is finished, skipping''
            (continuing_round\<lparr>ticks := 3\<rparr>))
      = (Ok (), (logging DEBUG ''The job file /jobs/run1/old/whisper.job is finished, skipping''
            (continuing_round\<lparr>ticks := 3\<rparr>))\<lparr>ticks := 4\<rparr>)"
    by (simp add: continuing_round_def s_def cont_defs)
  have e: "shutdown ((logging DEBUG ''The job file /jobs/run1/old/whisper.job is finished, skipping''
            (continuing_round\<lparr>ticks := 3\<rparr>))\<lparr>ticks := 4\<rparr>) = continuing_after"
    by (simp add: continuing_round_def two_files cont_defs)
  from jobinfo_deleted_when_work_returns [OF a, where self = "init [] 300" and n = "Suc 0"
      and s = s and v = continuing_round and ?v0.0 = "continuing_round\<lparr>ticks := 3\<rparr>"
      and s' = s and v' = "logging DEBUG ''The job file /jobs/run1/old/whisper.job is finished, skipping''
            (continuing_round\<lparr>ticks := 3\<rparr>)"
      and ?v3.0 = "(logging DEBUG ''The job file /jobs/run1/old/whisper.job is finished, skipping''
            (continuing_round\<lparr>ticks := 3\<rparr>))\<lparr>ticks := 4\<rparr>"]
  have m: "main (init [] 300) (args0\<lparr>continuation := True\<rparr>) continuing
     = Some (Ok (), s, continuing_after)"
    unfolding s1 using r c g c' e by simp
  have "''jobinfo.yaml'' \<in> dom (files continuing)" using a(4) by auto
  moreover have "''jobinfo.yaml'' \<notin> dom (files continuing_after)"
    by (simp add: continuing_after_def continuing_def world0_def)
  ultimately show ?thesis
    using m r by (simp add: s_def inf0_def)
qed

text \<open>A run that the signal ends: the handler submits again, writes \<^verbatim>\<open>jobinfo.yaml\<close> anew
  and exits with 0.\<close>

lemma preempted_main:
  "\<exists>v. main (init [] 300) (args0\<lparr>continuation := True\<rparr>) preempted
          = Some (Exit 0, init ''/jobs/run1'' 300, v)
       \<and> files v ''jobinfo.yaml'' = Some (File ''jobinfo'')
       \<and> ran v = [(''sbatch -D /jobs/run1'',
                    slurm_script (init ''/jobs/run1'' 300) args0 preempted)]"
proof -
  have "work_loop (init ''/jobs/run1'' 300)
      (startup (preempted\<lparr>handler := Some (Mapping (args0\<lparr>continuation := True, jobid := Some ''4242''\<rparr>))\<rparr>))
     = Some (Exit 0, init ''/jobs/run1'' 300,
          snd (usr1handler (init ''/jobs/run1'' 300)
            (Mapping (args0\<lparr>continuation := True, jobid := Some ''4242''\<rparr>))
            ((startup (preempted\<lparr>handler := Some (Mapping (args0\<lparr>continuation := True, jobid := Some ''4242''\<rparr>))\<rparr>))
               \<lparr>ticks := 1\<rparr>)))"
    by (subst work_loop.simps)
       (simp add: usr1handler_def self_submission_def eval_defs cont_defs)
  then show ?thesis
    by (simp add: main_def sanity_def work_def usr1handler_def self_submission_def
          eval_defs cont_defs)
qed

subsection \<open>Template rendering: the claim\<close>

lemma identifier_chars:
  assumes "is_identifier name"
  shows "name \<noteq> []" and "is_id_start (hd name)" and "\<And>x. x \<in> set name \<Longrightarrow> is_id_char x"
  using assms by (auto simp: is_identifier_def is_id_char_def list_all_iff split: list.splits)

lemma not_id_char_brace [simp]: "\<not> is_id_char CHR ''}''" "\<not> is_id_char CHR ''$''"
  by (simp_all add: is_id_char_def is_id_start_def)

lemma match_delim_braced:
  assumes "is_identifier name"
  shows "match_delim (CHR ''{'' # name @ CHR ''}'' # rest) =
           (no_match\<lparr>whole := ''${'' @ name @ ''}'', braced := Some name\<rparr>, rest)"
proof -
  from identifier_chars [OF assms] obtain c cs where n: "name = c # cs" and c: "is_id_start c"
    by (cases name) auto
  have all: "\<And>x. x \<in> set name \<Longrightarrow> is_id_char x" by (rule identifier_chars(3) [OF assms])
  have t: "takeWhile is_id_char (name @ CHR ''}'' # rest) = name"
    using all by (simp add: takeWhile_append2)
  have d: "dropWhile is_id_char (name @ CHR ''}'' # rest) = CHR ''}'' # rest"
    using all by (simp add: dropWhile_append2)
  show ?thesis
    using t d c unfolding match_delim_def by (simp add: n)
qed

lemma pattern_sub_braced:
  assumes "is_identifier name" and "pattern_sub (convert m) rest = Inr s"
  shows "pattern_sub (convert m) (''${'' @ name @ ''}'' @ rest) =
           Inr ((case m name of Some v \<Rightarrow> v | None \<Rightarrow> ''${'' @ name @ ''}'') @ s)"
proof -
  have ne: "name \<noteq> []" by (rule identifier_chars(1) [OF assms(1)])
  have "convert m (no_match\<lparr>whole := ''${'' @ name @ ''}'', braced := Some name\<rparr>) =
          Inr (case m name of Some v \<Rightarrow> v | None \<Rightarrow> ''${'' @ name @ ''}'')"
    using ne by (simp add: convert_def py_or_def no_match_def split: option.splits)
  then show ?thesis
    using assms(2) match_delim_braced [OF assms(1), of rest] by simp
qed

lemma pattern_sub_dollar:
  assumes "pattern_sub (convert m) rest = Inr s"
  shows "pattern_sub (convert m) (''$$'' @ rest) = Inr (''$'' @ s)"
  using assms by (simp add: match_delim_def convert_def py_or_def no_match_def)

lemma takeWhile_identifier:
  "is_id_start c \<Longrightarrow> is_identifier (takeWhile is_id_char (c # cs))"
  by (auto simp: is_identifier_def is_id_char_def list_all_iff dest: set_takeWhileD)

lemma match_delim_stray:
  assumes "stray_before rest"
  shows "match_delim rest = (no_match\<lparr>whole := ''$'', invalid := Some []\<rparr>, rest)"
proof (cases rest)
  case Nil
  then show ?thesis by (simp add: match_delim_def)
next
  case (Cons c r)
  with assms have c: "c \<noteq> CHR ''$''" "\<not> is_id_start c" and b: "\<not> braced_ahead (c # r)"
    by (auto simp: stray_before_def)
  show ?thesis
  proof (cases "c = CHR ''{''")
    case False
    with c Cons show ?thesis by (simp add: match_delim_def)
  next
    case True
    show ?thesis
    proof (cases r)
      case Nil
      with True Cons show ?thesis by (simp add: match_delim_def)
    next
      case (Cons i r')
      note r = Cons
      show ?thesis
      proof (cases "is_id_start i")
        case False
        with True r \<open>rest = c # r\<close> show ?thesis by (simp add: match_delim_def)
      next
        case i: True
        have "is_identifier (takeWhile is_id_char r)"
          using takeWhile_identifier [OF i, of r'] r by simp
        with b True have "case dropWhile is_id_char r of [] \<Rightarrow> True | e # a \<Rightarrow> e \<noteq> CHR ''}''"
          by (auto simp: braced_ahead_def simp del: dropWhile_eq_Nil_conv split: list.splits)
        moreover have "is_id_char i" using i by (simp add: is_id_char_def)
        ultimately show ?thesis
          using True r i \<open>rest = c # r\<close>
          by (auto simp: match_delim_def simp del: dropWhile_eq_Nil_conv split: list.splits)
      qed
    qed
  qed
qed

lemma pattern_sub_stray:
  assumes "stray_before rest" and "pattern_sub (convert m) rest = Inr s"
  shows "pattern_sub (convert m) (''$'' @ rest) = Inr (''$'' @ s)"
  using assms(2) match_delim_stray [OF assms(1)]
  by (simp add: convert_def py_or_def no_match_def)

lemma pattern_sub_parts:
  "well_formed ps \<Longrightarrow>
     pattern_sub (convert m) (template_of ps) = Inr (concat (map (fill m) ps))"
proof (induction ps)
  case Nil
  show ?case by (simp add: template_of_def)
next
  case (Cons p ps)
  show ?case
  proof (cases p)
    case (Text s)
    with Cons.prems have d: "CHR ''$'' \<notin> set s" and wf: "well_formed ps" by auto
    show ?thesis
      using pattern_sub_plain [OF d Cons.IH [OF wf]] Text by (simp add: template_of_def)
  next
    case (Named n)
    with Cons.prems have i: "is_identifier n" and c: "\<not> continues (template_of ps)"
      and wf: "well_formed ps" by auto
    show ?thesis
      using pattern_sub_named [OF i c Cons.IH [OF wf]] Named by (simp add: template_of_def)
  next
    case (Braced n)
    with Cons.prems have i: "is_identifier n" and wf: "well_formed ps" by auto
    show ?thesis
      using pattern_sub_braced [OF i Cons.IH [OF wf]] Braced by (simp add: template_of_def)
  next
    case Dollar
    with Cons.prems have wf: "well_formed ps" by auto
    show ?thesis
      using pattern_sub_dollar [OF Cons.IH [OF wf]] Dollar by (simp add: template_of_def)
  next
    case Stray
    with Cons.prems have s: "stray_before (template_of ps)" and wf: "well_formed ps" by auto
    show ?thesis
      using pattern_sub_stray [OF s Cons.IH [OF wf]] Stray by (simp add: template_of_def)
  qed
qed

lemma template_vars_value_of: "template_vars self w = value_of self w"
  by (rule ext) (simp add: template_vars_lookup value_of_def)

lemma dropWhile_not_continues: "\<not> continues (dropWhile is_id_char cs)"
proof (cases "dropWhile is_id_char cs")
  case Nil
  then show ?thesis by (simp add: continues_def del: dropWhile_eq_Nil_conv)
next
  case (Cons a list)
  from hd_dropWhile [of is_id_char cs] Cons have "\<not> is_id_char a" by simp
  with Cons show ?thesis by (simp add: continues_def)
qed

lemma every_template_has_parts: "\<exists>ps. well_formed ps \<and> template_of ps = t"
proof (induction t rule: length_induct)
  case (1 t)
  note IH = "1.IH" [rule_format]
  show ?case
  proof (cases t)
    case Nil
    have "well_formed [] \<and> template_of [] = []" by (simp add: template_of_def)
    with Nil show ?thesis by blast
  next
    case (Cons c cs)
    show ?thesis
    proof (cases "c = CHR ''$''")
      case False
      from IH [of cs] Cons obtain ps where ps: "well_formed ps" "template_of ps = cs" by auto
      with False have "well_formed (Text [c] # ps) \<and> template_of (Text [c] # ps) = c # cs"
        by (simp add: template_of_def)
      with Cons show ?thesis by blast
    next
      case True
      consider (esc) r where "cs = CHR ''$'' # r"
        | (named) "cs \<noteq> []" "is_id_start (hd cs)"
        | (braced) "braced_ahead cs"
        | (stray) "stray_before cs"
        by (cases cs) (auto simp: stray_before_def)
      then show ?thesis
      proof cases
        case esc
        from IH [of r] Cons esc obtain ps where ps: "well_formed ps" "template_of ps = r" by auto
        then have "well_formed (Dollar # ps) \<and> template_of (Dollar # ps) = t"
          using Cons True esc by (simp add: template_of_def)
        then show ?thesis by blast
      next
        case named
        then obtain d ds where cs: "cs = d # ds" and d: "is_id_start d" by (cases cs) auto
        let ?n = "takeWhile is_id_char cs" and ?r = "dropWhile is_id_char cs"
        have "length ?r \<le> length cs" by (rule length_dropWhile_le)
        with IH [of ?r] Cons obtain ps where ps: "well_formed ps" "template_of ps = ?r" by auto
        have "well_formed (Named ?n # ps)"
          using ps takeWhile_identifier [OF d, of ds] dropWhile_not_continues [of cs] cs by simp
        moreover have "template_of (Named ?n # ps) = t"
          using ps Cons True by (simp add: template_of_def)
        ultimately show ?thesis by blast
      next
        case braced
        then obtain r a where cs: "cs = CHR ''{'' # r" and i: "is_identifier (takeWhile is_id_char r)"
          and dr: "dropWhile is_id_char r = CHR ''}'' # a"
          by (auto simp: braced_ahead_def split: list.splits)
        let ?n = "takeWhile is_id_char r"
        have r: "r = ?n @ CHR ''}'' # a" using dr takeWhile_dropWhile_id [of is_id_char r] by simp
        then have "length a < length t" using Cons cs by (metis length_append length_Cons less_Suc_eq trans_less_add2 add.commute)
        with IH [of a] obtain ps where ps: "well_formed ps" "template_of ps = a" by auto
        have "well_formed (Braced ?n # ps)" using ps i by simp
        moreover have "template_of (Braced ?n # ps) = t"
          using ps Cons True cs r by (simp add: template_of_def)
        ultimately show ?thesis by blast
      next
        case stray
        from IH [of cs] Cons obtain ps where ps: "well_formed ps" "template_of ps = cs" by auto
        then have "well_formed (Stray # ps) \<and> template_of (Stray # ps) = t"
          using Cons True stray by (simp add: template_of_def)
        then show ?thesis by blast
      qed
    qed
  qed
qed

text \<open>
  C8 (amended). For every submission template and every environment, rendering never
  raises. The stripped text of every template is a well-formed sequence of parts, and
  for every such sequence the rendered command is the sequence with every part
  replaced: every placeholder \<open>$name\<close> or \<open>${name}\<close> by the value of the environment
  variable \<open>name\<close>, else, for \<open>name = workdir\<close>, by the absolute path of the working
  directory, and else by itself; \<open>$$\<close> by \<open>$\<close>; the other text by itself. The template
  \<open>sbatch -D $workdir\<close> with the working directory \<open>/jobs/run1\<close> renders to
  \<open>sbatch -D /jobs/run1\<close> when the environment has no variable \<open>workdir\<close>.
\<close>

theorem render_safe_substitute:
  "(\<exists>s. render self w text = Inr s)
   \<and> (\<exists>ps. well_formed ps \<and> template_of ps = strip text)
   \<and> (well_formed parts \<longrightarrow> template_of parts = strip text \<longrightarrow>
        render self w text = Inr (concat (map (fill (value_of self w)) parts)))
   \<and> (env w ''workdir'' = None \<longrightarrow> workdir self = ''/jobs/run1'' \<longrightarrow>
        render self w ''sbatch -D $workdir'' = Inr ''sbatch -D /jobs/run1'')"
proof (intro conjI impI)
  show "\<exists>s. render self w text = Inr s"
    unfolding render_def safe_substitute_def by (rule pattern_sub_total)
next
  show "\<exists>ps. well_formed ps \<and> template_of ps = strip text"
    by (rule every_template_has_parts)
next
  assume "well_formed parts" and "template_of parts = strip text"
  then show "render self w text = Inr (concat (map (fill (value_of self w)) parts))"
    using pattern_sub_parts [of parts "value_of self w"]
    by (simp add: render_def safe_substitute_def template_vars_value_of)
next
  assume "env w ''workdir'' = None" and "workdir self = ''/jobs/run1''"
  then have "template_vars self w ''workdir'' = Some ''/jobs/run1''"
    by (simp add: template_vars_lookup)
  then show "render self w ''sbatch -D $workdir'' = Inr ''sbatch -D /jobs/run1''"
    by (simp add: render_def safe_substitute_def strip_def is_space_def match_delim_def
          convert_def py_or_def no_match_def is_id_start_def is_id_char_def)
qed

theorem render_safe_substitute_witness:
  "well_formed amp_parts \<and> template_of amp_parts = strip amp_text
   \<and> env amp_world ''workdir'' = None \<and> workdir (init ''/jobs/run1'' 300) = ''/jobs/run1''
   \<and> render (init ''/jobs/run1'' 300) amp_world amp_text =
       Inr ''sbatch -D /jobs/run1 -e /jobs/run1/err -J amp_$ $nonexistent ${x''
   \<and> render (init ''/jobs/run1'' 300) amp_world ''sbatch -D $workdir'' = Inr ''sbatch -D /jobs/run1''"
  using render_safe_substitute [of "init ''/jobs/run1'' 300" amp_world amp_text amp_parts]
  by (simp add: amp_parts_def amp_text_def amp_world_def world0_def init_def template_of_def
        strip_def is_space_def is_identifier_def continues_def stray_before_def braced_ahead_def
        is_id_start_def is_id_char_def value_of_def)

text \<open>C8 as stated fails: a variable \<open>workdir\<close> of the environment replaces the working
  directory in the rendered command.\<close>

theorem render_env_overrides_workdir:
  "render (init ''/jobs/run1'' 300) (world0\<lparr>env := [''workdir'' \<mapsto> ''/tmp'']\<rparr>)
      ''sbatch -D $workdir'' = Inr ''sbatch -D /tmp''"
  by (simp add: render_def world0_def init_def strip_def is_space_def
        safe_substitute_def template_vars_def match_delim_def
        convert_def py_or_def no_match_def is_id_start_def is_id_char_def)

text \<open>A working directory given as a relative path is rendered as its absolute path.\<close>

lemma render_relative_workdir:
  "render (init ''run1'' 300) world0 ''sbatch -D $workdir'' = Inr ''sbatch -D /home/amp/run1''"
  by (simp add: render_def world0_def init_def strip_def is_space_def absolute_def is_absolute_def
        safe_substitute_def template_vars_def match_delim_def
        convert_def py_or_def no_match_def is_id_start_def is_id_char_def)

subsection \<open>Launches racing on one working directory\<close>

lemma pc_eval [simp]:
  "\<not> owns Start" "owns Locked" "owns Submitting" "owns Writing" "\<not> owns (Unlocking out)"
  "owns (Exiting rc out) = (rc = 1 \<and> (out = Failed \<or> out = Raised))" "\<not> owns (Done rc out)"
  "\<not> submits Start" "\<not> submits Locked" "submits Submitting" "submits Writing"
  "\<not> submits (Unlocking out)" "\<not> submits (Exiting rc out)" "\<not> submits (Done rc out)"
  "\<not> past Start" "\<not> past Locked" "\<not> past Submitting" "\<not> past Writing"
  "past (Unlocking out) = (out = Submitted \<or> out = AlreadyActive)"
  "past (Exiting rc out) = (rc = 0 \<and> (out = Submitted \<or> out = AlreadyActive))"
  "past (Done rc out) = (rc = 0 \<and> (out = Submitted \<or> out = AlreadyActive))"
  "\<not> submitted Start" "\<not> submitted Locked" "\<not> submitted Submitting" "\<not> submitted Writing"
  "submitted (Unlocking out) = (out = Submitted)"
  "submitted (Exiting rc out) = (rc = 0 \<and> out = Submitted)"
  "submitted (Done rc out) = (rc = 0 \<and> out = Submitted)"
  "wellformed Start" "wellformed Locked" "wellformed Submitting" "wellformed Writing"
  "wellformed (Unlocking out) = (out = Submitted \<or> out = AlreadyActive)"
  "wellformed (Exiting rc out) =
     ((rc = 0 \<and> (out = Submitted \<or> out = AlreadyActive)) \<or> (rc = 1 \<and> (out = Failed \<or> out = Raised)))"
  "wellformed (Done rc out) =
     ((rc = 0 \<and> (out = Submitted \<or> out = AlreadyActive \<or> out = Conflict))
      \<or> (rc = 1 \<and> (out = Failed \<or> out = Raised)))"
  "\<not> raised Start" "\<not> raised Locked" "\<not> raised Submitting" "\<not> raised Writing"
  "raised (Unlocking out) = (out = Raised)" "raised (Exiting rc out) = (out = Raised)"
  "raised (Done rc out) = (out = Raised)"
  "\<not> failed Start" "\<not> failed Locked" "\<not> failed Submitting" "\<not> failed Writing"
  "failed (Unlocking out) = (out = Failed)" "failed (Exiting rc out) = (out = Failed)"
  "failed (Done rc out) = (out = Failed)"
  by (auto simp: owns_def submits_def past_def submitted_def wellformed_def raised_def failed_def)










lemma active_update [simp]:
  "active (s\<lparr>pcs := p\<rparr>) = active s" "active (s\<lparr>lock := l\<rparr>) = active s"
  "active (s\<lparr>attempts := n\<rparr>) = active s" "active (s\<lparr>accepted := n\<rparr>) = active s"
  "active (s\<lparr>written := n\<rparr>) = active s" "active (s\<lparr>jobinfo := Regular\<rparr>)"
  by (simp_all add: active_def)






































lemmas run_eval = run_def step1_def launch_def always_def after_first_def active_def finish_def
  resubmit_def launches_only_def



text \<open>When \<^verbatim>\<open>.submit\<close> is a directory, both callers end with status 1 by the exception of
  \<^verbatim>\<open>read_text()\<close>, and no command is run.\<close>

lemma callers_raise_without_submit:
  "pcs (run one_by_one (launch False Absent Directory always)) 0 = Done 1 Raised
   \<and> pcs (run one_by_one (launch False Absent Directory always)) 1 = Done 1 Raised
   \<and> attempts (run one_by_one (launch False Absent Directory always)) = 0
   \<and> \<not> lock (run one_by_one (launch False Absent Directory always))"
  by (simp add: run_eval one_by_one_def)

text \<open>The hypothesis of the theorem is needed: when a continuation ends between two
  launches, the second launch submits again and \<^verbatim>\<open>jobinfo.yaml\<close> is written twice.\<close>

lemma second_launch_after_finish:
  "pcs (run restarted (launch False Absent Regular always)) 0 = Done 0 Submitted
   \<and> pcs (run restarted (launch False Absent Regular always)) 1 = Done 0 Submitted
   \<and> written (run restarted (launch False Absent Regular always)) = 2
   \<and> accepted (run restarted (launch False Absent Regular always)) = 2"
  by (simp add: run_eval restarted_def)

subsection \<open>The steps agree with the sequential launch\<close>

text \<open>
  One process that runs its steps alone ends where \<open>fresh_launch\<close>, followed by the
  \<^verbatim>\<open>atexit\<close> functions, ends, whatever the entries of the working directory are at the
  start: the same exit status, the same lock and \<^verbatim>\<open>jobinfo.yaml\<close>, and as many runs of the
  submission command.
\<close>

lemma unlink_fields [simp]:
  "atexit (unlink p w) = atexit w" "ran (unlink p w) = ran w"
  "files (unlink p w) = (files w)(p := None)"
  by (simp_all add: unlink_def)

lemma files_run_atexit:
  "files (run_atexit w) q = (if q \<in> set (atexit w) then None else files w q)"
  by (simp add: run_atexit_def files_fold_unlink)

lemma in_dom_run_atexit:
  "(q \<in> dom (files (run_atexit w))) = (q \<notin> set (atexit w) \<and> q \<in> dom (files w))"
  by (auto simp: dom_def files_run_atexit)

lemma entry_of_Absent: "(entry_of (m p) = Absent) = (p \<notin> dom m)"
  by (auto simp: entry_of_def dom_def split: option.splits node.splits)

lemma entry_of_simps [simp]:
  "entry_of None = Absent" "entry_of (Some Dir) = Directory" "entry_of (Some (File t)) = Regular"
  by (simp_all add: entry_of_def)

lemma ran_fold_unlink: "ran (fold unlink ps w) = ran w"
  by (induction ps arbitrary: w) simp_all

lemma render_total: "\<exists>cmd. render self w text = Inr cmd"
  unfolding render_def safe_substitute_def by (rule pattern_sub_total)

lemma solo_launch_agrees:
  assumes a: "atexit w = []"
  shows "pcs (solo self args w) 0
           = Done (exit_status (fst (fresh_launch self args w))) (seen self args w)
    \<and> lock (solo self args w)
        = (''submit.lock'' \<in> dom (files (run_atexit (snd (fresh_launch self args w)))))
    \<and> jobinfo (solo self args w)
        = entry_of (files (run_atexit (snd (fresh_launch self args w))) ''jobinfo.yaml'')
    \<and> attempts (solo self args w)
        = length (ran (snd (fresh_launch self args w))) - length (ran w)"
proof (cases "''submit.lock'' \<in> dom (files w)")
  case True
  then show ?thesis
    using a by (simp add: solo_def seen_def run_def step1_def launch_def fresh_launch_def
        exit_status_def in_dom_run_atexit files_run_atexit)
next
  case False
  note nolock = this
  define wl where "wl = w\<lparr>files := (files w)(''submit.lock'' \<mapsto> File []),
                   atexit := atexit w @ [''submit.lock'']\<rparr>"
  have fl: "fresh_launch self args w =
      (case locked_body self args wl of
         (Ok u, w') \<Rightarrow> (Exit 0, unlink ''submit.lock'' w')
       | (Raise e, w') \<Rightarrow>
           if e = FileExistsError then (Exit 0, logging INFO ''Submission conflict'' w')
           else (Raise e, w')
       | (Exit n, w') \<Rightarrow> (Exit n, w'))"
    using nolock by (simp add: fresh_launch_def wl_def)
  show ?thesis
  proof (cases "''jobinfo.yaml'' \<in> dom (files w)")
    case True
    then have "locked_body self args wl =
        (Ok (), logging INFO ''Jobinfo file already exists, service is already in the system'' wl)"
      by (auto simp: locked_body_def wl_def)
    then have f: "fresh_launch self args w = (Exit 0, unlink ''submit.lock''
        (logging INFO ''Jobinfo file already exists, service is already in the system'' wl))"
      by (simp add: fl)
    have e: "entry_of (files w ''jobinfo.yaml'') \<noteq> Absent" using True by (simp add: entry_of_Absent)
    have so: "pcs (solo self args w) 0 = Done 0 AlreadyActive"
      "\<not> lock (solo self args w)" "jobinfo (solo self args w) = entry_of (files w ''jobinfo.yaml'')"
      "attempts (solo self args w) = 0"
      using nolock e by (simp_all add: solo_def run_def step1_def launch_def active_def)
    show ?thesis
      using so nolock True a
      by (simp add: f seen_def exit_status_def in_dom_run_atexit files_run_atexit wl_def)
  next
    case False
    note nojob = this
    have e: "entry_of (files w ''jobinfo.yaml'') = Absent" using nojob by (simp add: entry_of_Absent)
    have j': "files wl ''jobinfo.yaml'' = None" using nojob by (auto simp: wl_def)
    have nj: "''jobinfo.yaml'' \<notin> dom (files wl)" using nojob by (auto simp: wl_def)
    show ?thesis
    proof (cases "entry_of (files w ''.submit'') = Regular")
      case False
      note unreadable = this
      then have "\<exists>e. e \<noteq> FileExistsError \<and> self_submission self (args\<lparr>jobid := None\<rparr>) wl = (Raise e, wl)"
        by (auto simp: self_submission_def entry_of_def wl_def split: option.splits node.splits)
      then obtain e where ne: "e \<noteq> FileExistsError"
        and ss: "self_submission self (args\<lparr>jobid := None\<rparr>) wl = (Raise e, wl)" by blast
      have lb: "locked_body self args wl = (Raise e, wl)"
        using nj ss by (simp add: locked_body_def)
      have fr: "fresh_launch self args w = (Raise e, wl)"
        using ne by (simp add: fl lb)
      have so: "pcs (solo self args w) 0 = Done 1 Raised"
        "\<not> lock (solo self args w)" "jobinfo (solo self args w) = Absent"
        "attempts (solo self args w) = 0"
        using nolock e unreadable by (simp_all add: solo_def run_def step1_def launch_def active_def)
      show ?thesis
        using so nolock nojob unreadable a e
        by (simp add: fr seen_def exit_status_def in_dom_run_atexit files_run_atexit wl_def)
    next
      case True
      note readable = this
      then obtain tx where s: "files w ''.submit'' = Some (File tx)"
        by (auto simp: entry_of_def split: option.splits node.splits)
      obtain cmd where c: "render self w tx = Inr cmd" using render_total by blast
      have cm: "command self w = cmd" using s c by (simp add: command_def)
      have s': "files wl ''.submit'' = Some (File tx)" using s by (simp add: wl_def)
      have c': "render self wl tx = Inr cmd" using c by (simp add: wl_def)
      show ?thesis
      proof (cases "returncode (shell w cmd (slurm_script self args w)) = 0")
        case True
        have "\<exists>w'. locked_body self args wl = (Ok (), w')
            \<and> files w' = (files wl)(''jobinfo.yaml'' \<mapsto> File (yaml_dump w
                  (args\<lparr>jobid := Some (strip (stdout (shell w cmd (slurm_script self args w))))\<rparr>)))
            \<and> atexit w' = atexit wl \<and> ran w' = ran w @ [(cmd, slurm_script self args w)]"
          using True s' c' j' nojob
          by (simp add: locked_body_def self_submission_def Let_def wl_def)
        then obtain w' where lb: "locked_body self args wl = (Ok (), w')"
          and f: "files w' = (files wl)(''jobinfo.yaml'' \<mapsto> File (yaml_dump w
                  (args\<lparr>jobid := Some (strip (stdout (shell w cmd (slurm_script self args w))))\<rparr>)))"
          and at: "atexit w' = atexit wl" and rn: "ran w' = ran w @ [(cmd, slurm_script self args w)]"
          by blast
        have fr: "fresh_launch self args w = (Exit 0, unlink ''submit.lock'' w')"
          by (simp add: fl lb)
        have so: "pcs (solo self args w) 0 = Done 0 Submitted"
          "\<not> lock (solo self args w)" "jobinfo (solo self args w) = Regular"
          "attempts (solo self args w) = 1"
          using nolock e readable True cm
          by (simp_all add: solo_def run_def step1_def launch_def active_def)
        show ?thesis
          using so nolock nojob readable True a cm e
          by (simp add: fr f at rn seen_def exit_status_def in_dom_run_atexit files_run_atexit
                wl_def)
      next
        case False
        have "\<exists>w'. locked_body self args wl = (Exit 1, w')
            \<and> files w' = files wl
            \<and> atexit w' = atexit wl \<and> ran w' = ran w @ [(cmd, slurm_script self args w)]"
          using False s' c' j' nojob
          by (simp add: locked_body_def self_submission_def Let_def wl_def)
        then obtain w' where lb: "locked_body self args wl = (Exit 1, w')"
          and f: "files w' = files wl"
          and at: "atexit w' = atexit wl" and rn: "ran w' = ran w @ [(cmd, slurm_script self args w)]"
          by blast
        have fr: "fresh_launch self args w = (Exit 1, w')"
          by (simp add: fl lb)
        have so: "pcs (solo self args w) 0 = Done 1 Failed"
          "\<not> lock (solo self args w)" "jobinfo (solo self args w) = Absent"
          "attempts (solo self args w) = 1"
          using nolock e readable False cm
          by (simp_all add: solo_def run_def step1_def launch_def active_def)
        show ?thesis
          using so nolock nojob readable False a cm e
          by (simp add: fr f at rn seen_def exit_status_def in_dom_run_atexit files_run_atexit
                wl_def)
      qed
    qed
  qed
qed

text \<open>The same for the whole process, from a working directory that passes the checks
  of \<^verbatim>\<open>main\<close>.\<close>

lemma solo_process_agrees:
  assumes "is_dir w" and "''.submit'' \<in> dom (files w)"
    and "\<not> (continuation args \<and> ''jobinfo.yaml'' \<in> dom (files w))" and "atexit w = []"
  shows "\<exists>w'. process self args w
           = Some (exit_status (fst (fresh_launch (self\<lparr>workdir := workdir_arg args\<rparr>)
                                      (args\<lparr>continuation := False\<rparr>) w)), w')
    \<and> pcs (solo (self\<lparr>workdir := workdir_arg args\<rparr>) args w) 0
        = Done (exit_status (fst (fresh_launch (self\<lparr>workdir := workdir_arg args\<rparr>)
                                    (args\<lparr>continuation := False\<rparr>) w)))
            (seen (self\<lparr>workdir := workdir_arg args\<rparr>) args w)
    \<and> lock (solo (self\<lparr>workdir := workdir_arg args\<rparr>) args w)
        = (''submit.lock'' \<in> dom (files w'))
    \<and> jobinfo (solo (self\<lparr>workdir := workdir_arg args\<rparr>) args w)
        = entry_of (files w' ''jobinfo.yaml'')
    \<and> attempts (solo (self\<lparr>workdir := workdir_arg args\<rparr>) args w)
        = length (ran w') - length (ran w)"
proof -
  let ?self = "self\<lparr>workdir := workdir_arg args\<rparr>" and ?args = "args\<lparr>continuation := False\<rparr>"
  obtain r w1 where f: "fresh_launch ?self ?args w = (r, w1)"
    by (cases "fresh_launch ?self ?args w")
  have s: "sanity ?self w = None"
    using assms(1,2) by (simp add: sanity_def)
  have p: "process self args w = Some (exit_status r, run_atexit w1)"
    using assms(3) f s by (auto simp: process_def main_def)
  have so: "solo ?self ?args w = solo ?self args w"
    by (simp add: solo_def)
  have se: "seen ?self ?args w = seen ?self args w"
    by (simp add: seen_def)
  have rn: "ran (run_atexit w1) = ran w1"
    by (simp add: run_atexit_def ran_fold_unlink)
  show ?thesis
    using solo_launch_agrees [OF assms(4), of ?self ?args] p f rn
    by (simp add: so se)
qed

end
